theory Spec2Isabelle
  imports Main "HOL-Library.AList" "HOL-Library.List_Lexorder" "HOL-Library.Char_ord"
    "HOL-Library.Sublist"
begin

section \<open>Lineage merger (services/lineage\_generator.py)\<close>

text \<open>
  \<open>GlobalLineageGenerator\<close> keeps two fields that change while the graph is built:
  \<open>nodes\<close>, a dictionary from node name to style tag (an association list in insertion
  order, as a Python dictionary iterates), and \<open>edges\<close>, a set of formatted edge lines.
  The two input lists are fixed at construction and are passed to \<open>generate_graph\<close>
  as arguments here.
\<close>

record lineage =
  nodes :: "(string \<times> string) list"
  edges :: "string set"

definition lineage_init :: lineage where
  "lineage_init = \<lparr>nodes = [], edges = {}\<rparr>"

text \<open>A foreign key as \<open>generate_graph\<close> reads it (\<open>fk["source_table"]\<close>,
  \<open>fk["target_table"]\<close>), and a dbt model (\<open>model["name"]\<close>,
  \<open>model.get("dependencies", [])\<close>: an absent key is the empty list).\<close>

record foreign_key =
  source_table :: string
  target_table :: string

record dbt_model =
  dbt_name :: string
  dependencies :: "string list"

definition get_style_priority :: "string \<Rightarrow> int" where
  "get_style_priority style =
     (if style = ''box'' then 3
      else if style = ''source'' then 2
      else if style = ''db'' then 1
      else 0)"

text \<open>\<open>_add_node\<close>: \<open>current_style\<close> is \<open>None\<close> for an unknown name, and the test
  \<open>if current_style\<close> also sends the empty string to priority \<open>-1\<close>.\<close>

definition add_node :: "string \<Rightarrow> string \<Rightarrow> lineage \<Rightarrow> lineage" where
  "add_node name style g =
     (let current_style = map_of (nodes g) name;
          current_priority =
            (case current_style of
               None \<Rightarrow> - 1
             | Some s \<Rightarrow> if s \<noteq> [] then get_style_priority s else - 1);
          new_priority = get_style_priority style
      in if new_priority > current_priority
         then g\<lparr>nodes := AList.update name style (nodes g)\<rparr>
         else g)"

text \<open>The two f-strings of \<open>_add_edge\<close>.\<close>

definition edge_line :: "string \<Rightarrow> string \<Rightarrow> string \<Rightarrow> string" where
  \<open>edge_line from_node to_node label =
     (if label \<noteq> []
      then ''    '' @ from_node @ '' -- "'' @ label @ ''" --> '' @ to_node
      else ''    '' @ from_node @ '' --> '' @ to_node)\<close>

definition add_edge :: "string \<Rightarrow> string \<Rightarrow> string \<Rightarrow> lineage \<Rightarrow> lineage" where
  "add_edge from_node to_node label g =
     g\<lparr>edges := insert (edge_line from_node to_node label) (edges g)\<rparr>"

text \<open>Step 1 of \<open>generate_graph\<close>: one foreign key.\<close>

definition process_fk :: "foreign_key \<Rightarrow> lineage \<Rightarrow> lineage" where
  "process_fk fk g =
     (let from_table = source_table fk;
          to_table = target_table fk
      in add_edge from_table to_table ''FK''
           (add_node to_table ''db'' (add_node from_table ''db'' g)))"

text \<open>Step 2: one dependency of a model; a dot marks a dbt source.\<close>

definition process_dep :: "string \<Rightarrow> string \<Rightarrow> lineage \<Rightarrow> lineage" where
  "process_dep name dep g =
     (if CHR ''.'' \<in> set dep
      then add_edge dep name [] (add_node dep ''source'' g)
      else add_edge dep name [] (add_node dep ''box'' g))"

definition process_model :: "dbt_model \<Rightarrow> lineage \<Rightarrow> lineage" where
  "process_model m g =
     fold (process_dep (dbt_name m)) (dependencies m)
       (add_node (dbt_name m) ''box'' g)"

text \<open>Step 3: the node definitions, in dictionary order; a style outside the three
  known ones contributes no line.\<close>

definition node_definition :: "string \<times> string \<Rightarrow> string list" where
  \<open>node_definition p =
     (case p of (name, style) \<Rightarrow>
        if style = ''box'' then [''    '' @ name @ ''["'' @ name @ ''"]'']
        else if style = ''db'' then [''    '' @ name @ ''[("'' @ name @ ''")]'']
        else if style = ''source'' then [''    '' @ name @ ''(("'' @ name @ ''"))'']
        else [])\<close>

definition node_lines :: "lineage \<Rightarrow> string list" where
  "node_lines g = sort (concat (map node_definition (nodes g)))"

definition edge_lines :: "lineage \<Rightarrow> string list" where
  "edge_lines g = sorted_list_of_set (edges g)"

definition graph_lines :: "lineage \<Rightarrow> string list" where
  "graph_lines g = [''graph TD;''] @ node_lines g @ [[]] @ edge_lines g"

text \<open>\<open>"\n".join(lines)\<close>.\<close>

fun join_lines :: "string list \<Rightarrow> string" where
  "join_lines [] = []"
| "join_lines [l] = l"
| "join_lines (l # ls) = l @ [CHR 0x0A] @ join_lines ls"

definition build_graph :: "foreign_key list \<Rightarrow> dbt_model list \<Rightarrow> lineage" where
  "build_graph db_fks dbt_models =
     fold process_model dbt_models (fold process_fk db_fks lineage_init)"

definition generate_graph :: "foreign_key list \<Rightarrow> dbt_model list \<Rightarrow> string" where
  "generate_graph db_fks dbt_models = join_lines (graph_lines (build_graph db_fks dbt_models))"

text \<open>Sequences of calls, for the properties that speak of any order of calls.\<close>

definition add_nodes :: "(string \<times> string) list \<Rightarrow> lineage \<Rightarrow> lineage" where
  "add_nodes calls g = fold (\<lambda>(name, style). add_node name style) calls g"


text \<open>The priority \<open>_add_node\<close> computes for the style a name has at the moment.\<close>

definition node_priority :: "lineage \<Rightarrow> string \<Rightarrow> int" where
  "node_priority g n =
     (case map_of (nodes g) n of None \<Rightarrow> - 1
      | Some s \<Rightarrow> if s \<noteq> [] then get_style_priority s else - 1)"

section \<open>Documentation trees, the catalog and the file system\<close>

text \<open>
  A loaded YAML document. Mapping keys are strings (the writer looks up string keys
  only); a mapping is an association list in document order, and \<open>AList.update\<close> is
  the assignment \<open>m[k] = v\<close> of an ordered mapping: an existing key keeps its place, a
  new key goes to the end. Aliases between nodes of one document are not modelled.
\<close>

datatype yaml =
    YNull
  | YBool bool
  | YInt int
  | YStr string
  | YSeq "yaml list"
  | YMap "(string \<times> yaml) list"

text \<open>Python truth value: \<open>None\<close>, \<open>False\<close>, \<open>0\<close> and the empty string, list and
  mapping are false.\<close>

fun truthy :: "yaml \<Rightarrow> bool" where
  "truthy YNull = False"
| "truthy (YBool b) = b"
| "truthy (YInt i) = (i \<noteq> 0)"
| "truthy (YStr s) = (s \<noteq> [])"
| "truthy (YSeq xs) = (xs \<noteq> [])"
| "truthy (YMap m) = (m \<noteq> [])"

text \<open>\<open>bool(node.get(key))\<close>: an absent key gives \<open>None\<close>.\<close>

definition get_truthy :: "(string \<times> yaml) list \<Rightarrow> string \<Rightarrow> bool" where
  "get_truthy m k = (case map_of m k of None \<Rightarrow> False | Some v \<Rightarrow> truthy v)"

datatype error =
    WriterError string
  | AttributeError
  | TypeError
  | KeyError string
  | OSError string
  | Abort

text \<open>What a \<open>for\<close> loop (or a generator) iterates over: the elements of a list, the
  keys of a mapping, the characters of a string; anything else raises \<open>TypeError\<close>.\<close>

fun py_iter :: "yaml \<Rightarrow> error + yaml list" where
  "py_iter (YSeq xs) = Inr xs"
| "py_iter (YMap m) = Inr (map (\<lambda>kv. YStr (fst kv)) m)"
| "py_iter (YStr s) = Inr (map (\<lambda>c. YStr [c]) s)"
| "py_iter v = Inl TypeError"

text \<open>
  The catalog. Its entries are built by the catalog generator, so they are typed:
  \<open>model_description\<close> is \<open>None\<close> when the key is absent (read with \<open>.get\<close> in one
  place and with \<open>[...]\<close>, which raises \<open>KeyError\<close>, in another); \<open>columns\<close> and
  \<open>ai_generated\<close> are empty when absent (\<open>.get(..., [])\<close>, \<open>.get(..., {})\<close>);
  \<open>drift_status\<close> and \<open>original_file_path\<close> are read with \<open>.get\<close>. The catalog is a
  dictionary keyed by model name, written as an association list.
\<close>

record ai_column =
  column_name :: string
  ai_generated :: "(string \<times> yaml) list"
  drift_status :: "string option"

record ai_model =
  model_description :: "yaml option"
  columns :: "ai_column list"
  original_file_path :: "string option"

type_synonym catalog = "(string \<times> ai_model) list"

text \<open>
  The file system: a tree of named entries under the directory every path is resolved
  from. A file is represented by what \<open>yaml.load\<close> makes of its text: \<open>Malformed\<close>
  when the load raises \<open>YAMLError\<close>, the loaded document otherwise (\<open>YNull\<close> for an
  empty file); \<open>yaml.dump\<close> stores a document that loads back unchanged.
\<close>

datatype file_content = Malformed | Parsed yaml

datatype fsnode = File file_content | Dir "(string \<times> fsnode) list"

text \<open>\<open>os.path.join\<close> and \<open>os.path.dirname\<close> of posixpath.\<close>

definition path_join :: "string \<Rightarrow> string \<Rightarrow> string" where
  "path_join a b =
     (if b \<noteq> [] \<and> hd b = CHR ''/'' then b
      else if a = [] \<or> last a = CHR ''/'' then a @ b
      else a @ ''/'' @ b)"

definition dirname :: "string \<Rightarrow> string" where
  "dirname p =
     (let head = rev (dropWhile (\<lambda>c. c \<noteq> CHR ''/'') (rev p))
      in if head \<noteq> [] \<and> \<not> list_all (\<lambda>c. c = CHR ''/'') head
         then rev (dropWhile (\<lambda>c. c = CHR ''/'') (rev head))
         else head)"

text \<open>Resolution of a path string: the components between slashes, without the empty
  ones and without \<open>.\<close>. A component \<open>..\<close> is not interpreted (no entry has that name).\<close>

fun split_on :: "char \<Rightarrow> string \<Rightarrow> string list" where
  "split_on d [] = [[]]"
| "split_on d (c # cs) =
     (if c = d then [] # split_on d cs
      else (case split_on d cs of [] \<Rightarrow> [[c]] | w # ws \<Rightarrow> (c # w) # ws))"

definition split_path :: "string \<Rightarrow> string list" where
  "split_path p = filter (\<lambda>c. c \<noteq> [] \<and> c \<noteq> ''.'') (split_on (CHR ''/'') p)"

fun fs_lookup :: "fsnode \<Rightarrow> string list \<Rightarrow> fsnode option" where
  "fs_lookup n [] = Some n"
| "fs_lookup n (c # cs) =
     (case n of
        File _ \<Rightarrow> None
      | Dir es \<Rightarrow> (case map_of es c of None \<Rightarrow> None | Some n' \<Rightarrow> fs_lookup n' cs))"

text \<open>\<open>open(path, "w")\<close> followed by writing the content: fails (\<open>None\<close>, an
  \<open>IOError\<close>) when the parent directory is missing or the path names a directory.\<close>

fun fs_write :: "fsnode \<Rightarrow> string list \<Rightarrow> file_content \<Rightarrow> fsnode option" where
  "fs_write n [] v = None"
| "fs_write n [c] v =
     (case n of
        File _ \<Rightarrow> None
      | Dir es \<Rightarrow>
          (case map_of es c of
             Some (Dir _) \<Rightarrow> None
           | _ \<Rightarrow> Some (Dir (AList.update c (File v) es))))"
| "fs_write n (c # cs) v =
     (case n of
        File _ \<Rightarrow> None
      | Dir es \<Rightarrow>
          (case map_of es c of
             None \<Rightarrow> None
           | Some n' \<Rightarrow>
               (case fs_write n' cs v of
                  None \<Rightarrow> None
                | Some n'' \<Rightarrow> Some (Dir (AList.update c n'' es)))))"

text \<open>\<open>os.walk(root)\<close>, top down: the directory itself with the names of its files,
  then each subdirectory in listing order. A root that is a file yields nothing.\<close>

fun walk :: "string \<Rightarrow> fsnode \<Rightarrow> (string \<times> string list) list" where
  "walk root (File c) = []"
| "walk root (Dir es) =
     (root, concat (map (\<lambda>(n, e). case e of File _ \<Rightarrow> [n] | Dir _ \<Rightarrow> []) es))
     # concat (map (\<lambda>(d, sub). walk (path_join root d) sub) es)"

section \<open>The schema writer (components/writers/dbt\_yaml\_writer.py)\<close>

text \<open>The mode is checked by the constructor, which raises \<open>ValueError\<close> for any
  string but these four.\<close>

datatype mode = Update | Check | Interactive | Drift

text \<open>
  The state of a \<open>DbtYamlWriter\<close>. \<open>files_to_write\<close> is a set, kept as a list without
  repetitions in the order of insertion. \<open>stdin\<close> is what the operator will answer in
  interactive mode: the strings successive calls of \<open>typer.prompt\<close> return (the typed
  text, or the offered default when the operator only presses Enter).
\<close>

record writer =
  dbt_project_dir :: string
  mode :: mode
  yaml_files :: "(string \<times> yaml) list"
  model_to_file_map :: "(string \<times> string) list"
  files_to_write :: "string list"
  stdin :: "string list"

definition writer_init :: "string \<Rightarrow> mode \<Rightarrow> string list \<Rightarrow> writer" where
  "writer_init dir m answers =
     \<lparr>dbt_project_dir = dir, mode = m, yaml_files = [], model_to_file_map = [],
      files_to_write = [], stdin = answers\<rparr>"

definition set_add :: "'a \<Rightarrow> 'a list \<Rightarrow> 'a list" where
  "set_add x xs = (if x \<in> set xs then xs else xs @ [x])"

subsection \<open>Discovery\<close>

definition is_schema_file :: "string \<Rightarrow> bool" where
  "is_schema_file file =
     ((suffix ''.yml'' file \<or> suffix ''.yaml'' file) \<and> \<not> sublist ''dbt_project'' file)"

definition find_schema_files :: "fsnode \<Rightarrow> string \<Rightarrow> string list" where
  "find_schema_files fs dir =
     concat (map (\<lambda>sub.
        let path = path_join dir sub
        in (case fs_lookup fs (split_path path) of
              None \<Rightarrow> []
            | Some d \<Rightarrow>
                concat (map (\<lambda>(root, files).
                  map (path_join root) (filter is_schema_file files)) (walk path d))))
       [''models'', ''seeds'', ''snapshots''])"

subsection \<open>Loading and indexing\<close>

text \<open>\<open>open(file_path, "r")\<close> and \<open>yaml.load\<close>; a parse failure becomes the
  \<open>WriterError\<close> of the \<open>except\<close> clause.\<close>

definition read_yaml :: "fsnode \<Rightarrow> string \<Rightarrow> error + yaml" where
  "read_yaml fs file_path =
     (case fs_lookup fs (split_path file_path) of
        Some (File Malformed) \<Rightarrow> Inl (WriterError (''Failed to parse YAML file: '' @ file_path))
      | Some (File (Parsed data)) \<Rightarrow> Inr data
      | _ \<Rightarrow> Inl (OSError file_path))"

text \<open>
  One \<open>node_config\<close> of the indexing loop. A name that is a non-empty string is
  recorded. A non-empty list or mapping as name cannot be a dictionary key
  (\<open>TypeError\<close>). A true boolean or non-zero number is stored by the source under a key
  that no catalog name, a string, is equal to; the index here holds strings only and
  leaves it out.
\<close>

fun map_node :: "string \<Rightarrow> yaml \<Rightarrow> (string \<times> string) list \<Rightarrow> error + (string \<times> string) list" where
  "map_node file_path (YMap m) idx =
     (case map_of m ''name'' of
        Some (YStr s) \<Rightarrow> Inr (if s \<noteq> [] then AList.update s file_path idx else idx)
      | Some (YSeq xs) \<Rightarrow> if xs \<noteq> [] then Inl TypeError else Inr idx
      | Some (YMap xs) \<Rightarrow> if xs \<noteq> [] then Inl TypeError else Inr idx
      | _ \<Rightarrow> Inr idx)"
| "map_node file_path v idx = Inr idx"

fun map_nodes :: "string \<Rightarrow> yaml list \<Rightarrow> (string \<times> string) list \<Rightarrow> error + (string \<times> string) list" where
  "map_nodes file_path [] idx = Inr idx"
| "map_nodes file_path (n # ns) idx =
     (case map_node file_path n idx of
        Inl e \<Rightarrow> Inl e
      | Inr idx' \<Rightarrow> map_nodes file_path ns idx')"

text \<open>\<open>data.get(node_type, [])\<close> for the four node types in turn.\<close>

fun map_node_types :: "string \<Rightarrow> (string \<times> yaml) list \<Rightarrow> string list \<Rightarrow> (string \<times> string) list
    \<Rightarrow> error + (string \<times> string) list" where
  "map_node_types file_path dm [] idx = Inr idx"
| "map_node_types file_path dm (node_type # ts) idx =
     (case py_iter (case map_of dm node_type of None \<Rightarrow> YSeq [] | Some v \<Rightarrow> v) of
        Inl e \<Rightarrow> Inl e
      | Inr ns \<Rightarrow>
          (case map_nodes file_path ns idx of
             Inl e \<Rightarrow> Inl e
           | Inr idx' \<Rightarrow> map_node_types file_path dm ts idx'))"

definition map_document :: "string \<Rightarrow> yaml \<Rightarrow> (string \<times> string) list \<Rightarrow> error + (string \<times> string) list" where
  "map_document file_path data idx =
     (case data of
        YMap dm \<Rightarrow> map_node_types file_path dm [''models'', ''sources'', ''seeds'', ''snapshots''] idx
      | _ \<Rightarrow> Inl AttributeError)"

fun load_files :: "fsnode \<Rightarrow> string list \<Rightarrow> writer \<Rightarrow> error + writer" where
  "load_files fs [] w = Inr w"
| "load_files fs (file_path # ps) w =
     (case read_yaml fs file_path of
        Inl e \<Rightarrow> Inl e
      | Inr data \<Rightarrow>
          if \<not> truthy data then load_files fs ps w
          else (case map_document file_path data (model_to_file_map w) of
                  Inl e \<Rightarrow> Inl e
                | Inr idx \<Rightarrow>
                    load_files fs ps
                      (w\<lparr>yaml_files := AList.update file_path data (yaml_files w),
                         model_to_file_map := idx\<rparr>)))"

definition load_and_map_existing_yamls :: "fsnode \<Rightarrow> writer \<Rightarrow> error + writer" where
  "load_and_map_existing_yamls fs w =
     load_files fs (find_schema_files fs (dbt_project_dir w)) w"

subsection \<open>The field policy\<close>

text \<open>\<open>_prompt_user_for_change\<close>: the next answer; \<open>typer.prompt\<close> aborts when there is
  none. \<open>final_value.lower() == "s"\<close> holds for \<open>s\<close> and \<open>S\<close>.\<close>

definition prompt_user_for_change :: "writer \<Rightarrow> error + (string option \<times> writer)" where
  "prompt_user_for_change w =
     (case stdin w of
        [] \<Rightarrow> Inl Abort
      | final_value # rest \<Rightarrow>
          if final_value = ''s'' \<or> final_value = ''S''
          then Inr (None, w\<lparr>stdin := rest\<rparr>)
          else Inr (Some final_value, w\<lparr>stdin := rest\<rparr>))"

definition process_update :: "writer \<Rightarrow> (string \<times> yaml) list \<Rightarrow> string \<Rightarrow> yaml
    \<Rightarrow> error + (bool \<times> (string \<times> yaml) list \<times> writer)" where
  "process_update w config_node key ai_value =
     (if mode w = Check then Inr (True, config_node, w)
      else if mode w = Interactive then
        (case prompt_user_for_change w of
           Inl e \<Rightarrow> Inl e
         | Inr (None, w') \<Rightarrow> Inr (False, config_node, w')
         | Inr (Some final_value, w') \<Rightarrow>
             Inr (True, AList.update key (YStr final_value) config_node, w'))
      else Inr (True, AList.update key ai_value config_node, w))"

subsection \<open>Known models\<close>

text \<open>The generator \<open>(n for n in data.get("models", []) if n.get("name") == model_name)\<close>
  under \<open>next\<close>: the position of the first match; an entry before it that is no mapping
  raises \<open>AttributeError\<close>.\<close>

fun find_node :: "yaml list \<Rightarrow> string \<Rightarrow> error + nat option" where
  "find_node [] model_name = Inr None"
| "find_node (n # ns) model_name =
     (case n of
        YMap m \<Rightarrow>
          if map_of m ''name'' = Some (YStr model_name) then Inr (Some 0)
          else (case find_node ns model_name of
                  Inl e \<Rightarrow> Inl e
                | Inr None \<Rightarrow> Inr None
                | Inr (Some i) \<Rightarrow> Inr (Some (Suc i)))
      | _ \<Rightarrow> Inl AttributeError)"

text \<open>The inner loop over \<open>ai_column.get("ai_generated", {}).items()\<close>.\<close>

fun fill_keys :: "writer \<Rightarrow> (string \<times> yaml) list \<Rightarrow> (string \<times> yaml) list
    \<Rightarrow> error + (bool \<times> (string \<times> yaml) list \<times> writer)" where
  "fill_keys w column_config [] = Inr (False, column_config, w)"
| "fill_keys w column_config ((key, ai_value) # kvs) =
     (if \<not> get_truthy column_config key then
        (case process_update w column_config key ai_value of
           Inl e \<Rightarrow> Inl e
         | Inr (changed, column_config', w') \<Rightarrow>
             (case fill_keys w' column_config' kvs of
                Inl e \<Rightarrow> Inl e
              | Inr (changed', column_config'', w'') \<Rightarrow>
                  Inr (changed \<or> changed', column_config'', w'')))
      else fill_keys w column_config kvs)"

text \<open>One \<open>column_config\<close>: the first catalog column of the same name, the drift check,
  then the fill loop.\<close>

definition update_column :: "writer \<Rightarrow> ai_model \<Rightarrow> yaml \<Rightarrow> error + (bool \<times> yaml \<times> writer)" where
  "update_column w ai_model_data column_config =
     (case column_config of
        YMap cm \<Rightarrow>
          (case find (\<lambda>c. map_of cm ''name'' = Some (YStr (column_name c))) (columns ai_model_data) of
             None \<Rightarrow> Inr (False, column_config, w)
           | Some ai_column \<Rightarrow>
               if mode w = Drift \<and> get_truthy cm ''description''
                  \<and> drift_status ai_column = Some ''DRIFT''
               then Inr (True, column_config, w)
               else (case fill_keys w cm (ai_generated ai_column) of
                       Inl e \<Rightarrow> Inl e
                     | Inr (changed, cm', w') \<Rightarrow> Inr (changed, YMap cm', w')))
      | _ \<Rightarrow> Inl AttributeError)"

fun update_columns :: "writer \<Rightarrow> ai_model \<Rightarrow> yaml list \<Rightarrow> error + (bool \<times> yaml list \<times> writer)" where
  "update_columns w ai_model_data [] = Inr (False, [], w)"
| "update_columns w ai_model_data (column_config # cs) =
     (case update_column w ai_model_data column_config of
        Inl e \<Rightarrow> Inl e
      | Inr (changed, column_config', w') \<Rightarrow>
          (case update_columns w' ai_model_data cs of
             Inl e \<Rightarrow> Inl e
           | Inr (changed', cs', w'') \<Rightarrow> Inr (changed \<or> changed', column_config' # cs', w'')))"

text \<open>The body of \<open>_update_existing_model_in_memory\<close> once the node is found: the
  description, then the columns. The columns are changed in place, so the node gets a
  new \<open>columns\<close> value only where it had a list.\<close>

definition update_node :: "writer \<Rightarrow> ai_model \<Rightarrow> (string \<times> yaml) list
    \<Rightarrow> error + (bool \<times> (string \<times> yaml) list \<times> writer)" where
  "update_node w ai_model_data node_config =
     (case (case model_description ai_model_data of
              None \<Rightarrow> Inr (False, node_config, w)
            | Some d \<Rightarrow>
                if \<not> get_truthy node_config ''description'' \<and> truthy d
                then process_update w node_config ''description'' d
                else Inr (False, node_config, w)) of
        Inl e \<Rightarrow> Inl e
      | Inr (changed, node_config', w') \<Rightarrow>
          (case py_iter (case map_of node_config' ''columns'' of None \<Rightarrow> YSeq [] | Some v \<Rightarrow> v) of
             Inl e \<Rightarrow> Inl e
           | Inr cs \<Rightarrow>
               (case update_columns w' ai_model_data cs of
                  Inl e \<Rightarrow> Inl e
                | Inr (changed', cs', w'') \<Rightarrow>
                    Inr (changed \<or> changed',
                         (case map_of node_config' ''columns'' of
                            Some (YSeq _) \<Rightarrow> AList.update ''columns'' (YSeq cs') node_config'
                          | _ \<Rightarrow> node_config'),
                         w''))))"

definition update_existing_model_in_memory :: "writer \<Rightarrow> string \<Rightarrow> string \<Rightarrow> ai_model
    \<Rightarrow> error + (bool \<times> writer)" where
  "update_existing_model_in_memory w file_path model_name ai_model_data =
     (case map_of (yaml_files w) file_path of
        None \<Rightarrow> Inr (False, w)
      | Some data \<Rightarrow>
          if \<not> truthy data then Inr (False, w)
          else (case data of
            YMap dm \<Rightarrow>
              (case py_iter (case map_of dm ''models'' of None \<Rightarrow> YSeq [] | Some v \<Rightarrow> v) of
                 Inl e \<Rightarrow> Inl e
               | Inr ns \<Rightarrow>
                   (case find_node ns model_name of
                      Inl e \<Rightarrow> Inl e
                    | Inr None \<Rightarrow> Inr (False, w)
                    | Inr (Some i) \<Rightarrow>
                        (case ns ! i of
                           YMap node_config \<Rightarrow>
                             (case update_node w ai_model_data node_config of
                                Inl e \<Rightarrow> Inl e
                              | Inr (file_changed, node_config', w') \<Rightarrow>
                                  Inr (file_changed,
                                       w'\<lparr>yaml_files :=
                                            AList.update file_path
                                              (YMap (AList.update ''models''
                                                 (YSeq (ns[i := YMap node_config'])) dm))
                                              (yaml_files w'),
                                          files_to_write :=
                                            (if file_changed
                                             then set_add file_path (files_to_write w')
                                             else files_to_write w')\<rparr>))
                         | _ \<Rightarrow> Inl AttributeError)))
          | _ \<Rightarrow> Inl AttributeError))"

subsection \<open>Unknown models\<close>

fun stub_keys :: "writer \<Rightarrow> (string \<times> yaml) list \<Rightarrow> (string \<times> yaml) list
    \<Rightarrow> error + ((string \<times> yaml) list \<times> writer)" where
  "stub_keys w new_col_stub [] = Inr (new_col_stub, w)"
| "stub_keys w new_col_stub ((key, ai_value) # kvs) =
     (case process_update w new_col_stub key ai_value of
        Inl e \<Rightarrow> Inl e
      | Inr (_, new_col_stub', w') \<Rightarrow> stub_keys w' new_col_stub' kvs)"

fun stub_columns :: "writer \<Rightarrow> ai_column list \<Rightarrow> error + (yaml list \<times> writer)" where
  "stub_columns w [] = Inr ([], w)"
| "stub_columns w (col # cols) =
     (case stub_keys w [(''name'', YStr (column_name col))] (ai_generated col) of
        Inl e \<Rightarrow> Inl e
      | Inr (new_col_stub, w') \<Rightarrow>
          (case stub_columns w' cols of
             Inl e \<Rightarrow> Inl e
           | Inr (new_columns_list, w'') \<Rightarrow> Inr (YMap new_col_stub # new_columns_list, w'')))"

text \<open>\<open>self.yaml_files[target].setdefault("models", []).append(new_model_stub)\<close>.\<close>

definition append_stub :: "yaml \<Rightarrow> yaml \<Rightarrow> error + yaml" where
  "append_stub data new_model_stub =
     (case data of
        YMap dm \<Rightarrow>
          (case map_of dm ''models'' of
             None \<Rightarrow> Inr (YMap (dm @ [(''models'', YSeq [new_model_stub])]))
           | Some (YSeq ms) \<Rightarrow> Inr (YMap (AList.update ''models'' (YSeq (ms @ [new_model_stub])) dm))
           | Some _ \<Rightarrow> Inl AttributeError)
      | _ \<Rightarrow> Inl AttributeError)"

definition create_new_model_stub_in_memory :: "writer \<Rightarrow> string \<Rightarrow> ai_model \<Rightarrow> error + (bool \<times> writer)" where
  "create_new_model_stub_in_memory w model_name ai_model_data =
     (if mode w = Check then Inr (True, w)
      else (case model_description ai_model_data of
        None \<Rightarrow> Inl (KeyError ''model_description'')
      | Some d \<Rightarrow>
          (case process_update w [(''name'', YStr model_name)] ''description'' d of
             Inl e \<Rightarrow> Inl e
           | Inr (_, stub, w1) \<Rightarrow>
               (case stub_columns w1 (columns ai_model_data) of
                  Inl e \<Rightarrow> Inl e
                | Inr (new_columns_list, w2) \<Rightarrow>
                    (let new_model_stub = YMap (AList.update ''columns'' (YSeq new_columns_list) stub)
                     in (case original_file_path ai_model_data of
                           None \<Rightarrow> Inr (False, w2)
                         | Some sql_path \<Rightarrow>
                             if sql_path = [] then Inr (False, w2)
                             else
                               (let target_yaml_path = path_join (dirname sql_path) ''schema.yml''
                                in (case map_of (yaml_files w2) target_yaml_path of
                                      Some data \<Rightarrow>
                                        (case append_stub data new_model_stub of
                                           Inl e \<Rightarrow> Inl e
                                         | Inr data' \<Rightarrow>
                                             Inr (True,
                                               w2\<lparr>yaml_files :=
                                                    AList.update target_yaml_path data' (yaml_files w2),
                                                  files_to_write :=
                                                    set_add target_yaml_path (files_to_write w2)\<rparr>))
                                    | None \<Rightarrow>
                                        Inr (True,
                                          w2\<lparr>yaml_files :=
                                               AList.update target_yaml_path
                                                 (YMap [(''version'', YInt 2),
                                                        (''models'', YSeq [new_model_stub])])
                                                 (yaml_files w2),
                                             files_to_write :=
                                               set_add target_yaml_path (files_to_write w2)\<rparr>)))))))))"

subsection \<open>Persisting and the entry point\<close>

text \<open>
  \<open>_write_modified_files_to_disk\<close>: each file is opened for writing, which fails
  with the \<open>WriterError\<close> or leaves an empty file, before its document is looked up
  (\<open>KeyError\<close> when there is none) and dumped. The result is the file system reached
  and the error, if any. The message of the \<open>WriterError\<close> is the text of the source up
  to the colon; the text of the operating system's error, which the source puts after
  it, is not part of this model.

  The source iterates \<open>self.files_to_write\<close>, a set, in an order that Python does not
  fix. The function takes the paths as the list in which they are visited, and
  \<open>writer_write\<close> below visits them in the order in which they were marked. The order
  shows in the result only when two dirty paths name one file or when a write fails
  after others succeeded.
\<close>

fun write_modified_files_to_disk :: "fsnode \<Rightarrow> (string \<times> yaml) list \<Rightarrow> string list
    \<Rightarrow> fsnode \<times> error option" where
  "write_modified_files_to_disk fs docs [] = (fs, None)"
| "write_modified_files_to_disk fs docs (file_path # ps) =
     (case fs_write fs (split_path file_path)
             (Parsed (case map_of docs file_path of None \<Rightarrow> YNull | Some data \<Rightarrow> data)) of
        None \<Rightarrow>
          (fs, Some (WriterError
             (''Failed to write updates to '' @ [CHR 0x27] @ file_path @ [CHR 0x27] @ '': '')))
      | Some fs' \<Rightarrow>
          (case map_of docs file_path of
             None \<Rightarrow> (fs', Some (KeyError file_path))
           | Some data \<Rightarrow> write_modified_files_to_disk fs' docs ps))"

text \<open>The two loops of \<open>write\<close>, carrying \<open>is_outdated\<close>.\<close>

fun update_models :: "writer \<Rightarrow> catalog \<Rightarrow> string list \<Rightarrow> bool \<Rightarrow> error + (bool \<times> writer)" where
  "update_models w catalog_data [] is_outdated = Inr (is_outdated, w)"
| "update_models w catalog_data (model_name # ms) is_outdated =
     (case map_of (model_to_file_map w) model_name of
        None \<Rightarrow> Inl (KeyError model_name)
      | Some file_path \<Rightarrow>
          (case map_of catalog_data model_name of
             None \<Rightarrow> Inl (KeyError model_name)
           | Some ai_model_data \<Rightarrow>
               (case update_existing_model_in_memory w file_path model_name ai_model_data of
                  Inl e \<Rightarrow> Inl e
                | Inr (changed, w') \<Rightarrow> update_models w' catalog_data ms (is_outdated \<or> changed))))"

fun create_models :: "writer \<Rightarrow> catalog \<Rightarrow> string list \<Rightarrow> bool \<Rightarrow> error + (bool \<times> writer)" where
  "create_models w catalog_data [] is_outdated = Inr (is_outdated, w)"
| "create_models w catalog_data (model_name # ms) is_outdated =
     (case map_of catalog_data model_name of
        None \<Rightarrow> Inl (KeyError model_name)
      | Some ai_model_data \<Rightarrow>
          (case create_new_model_stub_in_memory w model_name ai_model_data of
             Inl e \<Rightarrow> Inl e
           | Inr (changed, w') \<Rightarrow> create_models w' catalog_data ms (is_outdated \<or> changed)))"

text \<open>
  Everything \<open>write\<close> does before it touches the disk. The two sets of model names are
  iterated in the order of the catalog list (the order in which Python iterates a set is
  not fixed; a statement about every catalog list covers every order).
\<close>

definition reconcile :: "fsnode \<Rightarrow> writer \<Rightarrow> catalog \<Rightarrow> error + (bool \<times> writer)" where
  "reconcile fs w catalog_data =
     (case load_and_map_existing_yamls fs w of
        Inl e \<Rightarrow> Inl e
      | Inr w1 \<Rightarrow>
          (let catalog_models = remdups (map fst catalog_data);
               documented_models = map fst (model_to_file_map w1);
               models_to_update = filter (\<lambda>m. m \<in> set documented_models) catalog_models;
               models_to_create = filter (\<lambda>m. m \<notin> set documented_models) catalog_models
           in (case update_models w1 catalog_data models_to_update False of
                 Inl e \<Rightarrow> Inl e
               | Inr (is_outdated, w2) \<Rightarrow>
                   create_models w2 catalog_data models_to_create is_outdated)))"

definition writer_write :: "fsnode \<Rightarrow> writer \<Rightarrow> catalog \<Rightarrow> fsnode \<times> (error + (bool \<times> writer))" where
  "writer_write fs w catalog_data =
     (case reconcile fs w catalog_data of
        Inl e \<Rightarrow> (fs, Inl e)
      | Inr (is_outdated, w') \<Rightarrow>
          if mode w' \<noteq> Check \<and> mode w' \<noteq> Drift \<and> files_to_write w' \<noteq> []
          then (case write_modified_files_to_disk fs (yaml_files w') (files_to_write w') of
                  (fs', Some e) \<Rightarrow> (fs', Inl e)
                | (fs', None) \<Rightarrow> (fs', Inr (is_outdated, w')))
          else (fs, Inr (is_outdated, w')))"

text \<open>\<open>DbtYamlWriter.write\<close> is \<open>writer_write\<close> above (\<open>write\<close> is a word of the
  proof language). One run of the tool is a fresh writer, then \<open>write\<close>.\<close>

definition run :: "string \<Rightarrow> mode \<Rightarrow> string list \<Rightarrow> fsnode \<Rightarrow> catalog
    \<Rightarrow> fsnode \<times> (error + (bool \<times> writer))" where
  "run dir m answers fs catalog_data = writer_write fs (writer_init dir m answers) catalog_data"

section \<open>What reconciliation keeps\<close>

text \<open>
  Relations between a document before and after reconciliation, used to state what
  the writer leaves alone. A column keeps every value that was true; a node keeps
  every key but \<open>description\<close> and \<open>columns\<close>, keeps a description that was true, and
  keeps the number of its columns; the \<open>models\<close> list only grows at the end; every
  other key of the document keeps its value.
\<close>

fun col_kept :: "yaml \<Rightarrow> yaml \<Rightarrow> bool" where
  "col_kept (YMap cm) (YMap cm') =
     list_all (\<lambda>k. get_truthy cm k \<longrightarrow> map_of cm' k = map_of cm k) (map fst cm)"
| "col_kept c c' = (c' = c)"

fun cols_kept :: "yaml option \<Rightarrow> yaml option \<Rightarrow> bool" where
  "cols_kept (Some (YSeq cs)) (Some (YSeq cs')) = list_all2 col_kept cs cs'"
| "cols_kept co co' = (co' = co)"

fun node_kept :: "yaml \<Rightarrow> yaml \<Rightarrow> bool" where
  "node_kept (YMap nm) (YMap nm') =
     (AList.delete ''description'' (AList.delete ''columns'' nm')
        = AList.delete ''description'' (AList.delete ''columns'' nm)
      \<and> (get_truthy nm ''description'' \<longrightarrow> map_of nm' ''description'' = map_of nm ''description'')
      \<and> cols_kept (map_of nm ''columns'') (map_of nm' ''columns''))"
| "node_kept n n' = (n' = n)"

fun models_kept :: "yaml option \<Rightarrow> yaml option \<Rightarrow> bool" where
  "models_kept None mo' = True"
| "models_kept (Some (YSeq ns)) (Some (YSeq ns')) =
     (length ns \<le> length ns' \<and> list_all2 node_kept ns (take (length ns) ns'))"
| "models_kept mo mo' = (mo' = mo)"

fun doc_kept :: "yaml \<Rightarrow> yaml \<Rightarrow> bool" where
  "doc_kept (YMap dm) (YMap dm') =
     (AList.delete ''models'' dm' = AList.delete ''models'' dm
      \<and> models_kept (map_of dm ''models'') (map_of dm' ''models''))"
| "doc_kept d d' = (d' = d)"

text \<open>
  The relation between the writer after loading and the writer at a later point of
  the same call of \<open>write\<close>: the configuration and the index are the same, every loaded
  document is still there and kept in the sense above, every document that differs
  (or is new) has its path in \<open>files_to_write\<close>, and \<open>files_to_write\<close> only grows.
\<close>

definition writer_kept :: "writer \<Rightarrow> writer \<Rightarrow> bool" where
  "writer_kept w w' =
     (mode w' = mode w \<and> dbt_project_dir w' = dbt_project_dir w
      \<and> model_to_file_map w' = model_to_file_map w
      \<and> (\<forall>p d. map_of (yaml_files w) p = Some d \<longrightarrow>
            (\<exists>d'. map_of (yaml_files w') p = Some d' \<and> doc_kept d d'))
      \<and> (\<forall>p. map_of (yaml_files w') p \<noteq> map_of (yaml_files w) p \<longrightarrow> p \<in> set (files_to_write w'))
      \<and> set (files_to_write w) \<subseteq> set (files_to_write w'))"

text \<open>Two writers that differ at most in the answers still to be read, the second
  having read some of the answers of the first.\<close>

definition only_stdin :: "writer \<Rightarrow> writer \<Rightarrow> bool" where
  "only_stdin w w' = (w' = w\<lparr>stdin := stdin w'\<rparr> \<and> suffix (stdin w') (stdin w))"

section \<open>Example projects\<close>

text \<open>What a run reports: the error, or the returned flag and the dirty set.\<close>

definition outcome :: "fsnode \<times> (error + (bool \<times> writer)) \<Rightarrow> error + (bool \<times> string list)" where
  "outcome r =
     (case snd r of
        Inl e \<Rightarrow> Inl e
      | Inr (is_outdated, w) \<Rightarrow> Inr (is_outdated, files_to_write w))"

text \<open>The catalog of the scenario: one model \<open>orders\<close> with one column \<open>id\<close>.\<close>

definition orders_catalog :: catalog where
  "orders_catalog =
     [(''orders'',
       \<lparr>model_description = Some (YStr ''Order facts''),
        columns = [\<lparr>column_name = ''id'', ai_generated = [(''description'', YStr ''PK'')],
                    drift_status = None\<rparr>],
        original_file_path = Some ''models/orders.sql''\<rparr>)]"

text \<open>A project without documentation files (the SQL file is no YAML document).\<close>

definition empty_project :: fsnode where
  "empty_project = Dir [(''models'', Dir [(''orders.sql'', File Malformed)])]"

definition orders_stub :: yaml where
  "orders_stub =
     YMap [(''name'', YStr ''orders''), (''description'', YStr ''Order facts''),
           (''columns'', YSeq [YMap [(''name'', YStr ''id''), (''description'', YStr ''PK'')]])]"

text \<open>The same model when the catalog offers an empty description for the column, and
  a project that documents the model and lists the column without a description.\<close>

definition blank_catalog :: catalog where
  "blank_catalog =
     [(''orders'',
       \<lparr>model_description = Some (YStr ''Order facts''),
        columns = [\<lparr>column_name = ''id'', ai_generated = [(''description'', YStr [])],
                    drift_status = None\<rparr>],
        original_file_path = Some ''models/orders.sql''\<rparr>)]"

definition documented_project :: fsnode where
  "documented_project =
     Dir [(''models'', Dir [(''orders.sql'', File Malformed),
       (''schema.yml'', File (Parsed (YMap [(''version'', YInt 2),
          (''models'', YSeq [YMap [(''name'', YStr ''orders''),
             (''columns'', YSeq [YMap [(''name'', YStr ''id'')]])]])])))])]"

text \<open>A project with a second documentation file whose name contains \<open>dbt_project\<close>.\<close>

definition docs_project :: fsnode where
  "docs_project =
     Dir [(''dbt_project.yml'', File (Parsed (YMap [(''name'', YStr ''shop'')]))),
          (''models'', Dir [(''schema.yml'', File (Parsed YNull)),
                           (''dbt_project_docs.yml'', File (Parsed YNull))])]"

text \<open>A project whose documentation file describes the model \<open>customers\<close> by hand;
  the catalog of the scenario does not mention that model.\<close>

definition customers_doc :: "(string \<times> yaml) list" where
  "customers_doc =
     [(''version'', YInt 2),
      (''models'', YSeq [YMap [(''name'', YStr ''customers''),
                               (''description'', YStr ''Hand written'')]])]"

definition customers_project :: fsnode where
  "customers_project =
     Dir [(''models'', Dir [(''orders.sql'', File Malformed),
                           (''customers.sql'', File Malformed),
                           (''schema.yml'', File (Parsed (YMap customers_doc)))])]"

text \<open>A project that documents \<open>orders\<close> as a source, not as a model.\<close>

definition source_doc :: "(string \<times> yaml) list" where
  "source_doc =
     [(''version'', YInt 2),
      (''sources'', YSeq [YMap [(''name'', YStr ''orders'')]]),
      (''models'', YSeq [YMap [(''name'', YStr ''customers'')]])]"

definition source_project :: fsnode where
  "source_project =
     Dir [(''models'', Dir [(''schema.yml'', File (Parsed (YMap source_doc)))])]"

definition source_loaded :: writer where
  "source_loaded =
     \<lparr>dbt_project_dir = ''.'', mode = Update,
      yaml_files = [(''./models/schema.yml'', YMap source_doc)],
      model_to_file_map = [(''customers'', ''./models/schema.yml''),
                           (''orders'', ''./models/schema.yml'')],
      files_to_write = [], stdin = []\<rparr>"

text \<open>A catalog with \<open>orders\<close> and with a model \<open>users\<close> that no file documents, and
  the stub of \<open>users\<close>.\<close>

definition orders_users_catalog :: catalog where
  "orders_users_catalog =
     orders_catalog @
     [(''users'',
       \<lparr>model_description = Some (YStr ''Registered users''), columns = [],
        original_file_path = Some ''models/users.sql''\<rparr>)]"

definition users_stub :: yaml where
  "users_stub =
     YMap [(''name'', YStr ''users''), (''description'', YStr ''Registered users''),
           (''columns'', YSeq [])]"


definition broken_project :: fsnode where
  "broken_project = Dir [(''models'', Dir [(''schema.yml'', File Malformed)])]"

text \<open>The writer of the scenario once the stub of \<open>orders\<close> is placed, and a writer that
  holds, under the same path, a document without a \<open>models\<close> list.\<close>

definition stubbed_doc :: "(string \<times> yaml) list" where
  "stubbed_doc = [(''version'', YInt 2), (''models'', YSeq [orders_stub])]"

definition stubbed_writer :: writer where
  "stubbed_writer =
     \<lparr>dbt_project_dir = ''.'', mode = Update,
      yaml_files = [(''models/schema.yml'', YMap stubbed_doc)],
      model_to_file_map = [], files_to_write = [''models/schema.yml''], stdin = []\<rparr>"










section \<open>Nodes that need nothing\<close>



section \<open>What a file holds\<close>

text \<open>The content found by opening a path for reading: none when the path names no
  file (nothing, or a directory).\<close>

definition file_at :: "fsnode \<Rightarrow> string list \<Rightarrow> file_content option" where
  "file_at fs cs = (case fs_lookup fs cs of Some (File c) \<Rightarrow> Some c | _ \<Rightarrow> None)"

section \<open>The stub of an unknown model, as described\<close>




section \<open>How much a document holds\<close>













section \<open>Properties of the lineage merger\<close>

lemma add_node_priority:
  "s \<noteq> [] \<Longrightarrow> node_priority (add_node n s g) m =
     (if m = n then max (node_priority g n) (get_style_priority s) else node_priority g m)"
  by (auto simp: add_node_def node_priority_def Let_def update_conv' get_style_priority_def
      split: option.splits)

lemma add_node_style:
  "map_of (nodes (add_node n s g)) m = map_of (nodes g) m \<or>
   (m = n \<and> map_of (nodes (add_node n s g)) m = Some s)"
  by (auto simp: add_node_def Let_def update_conv')

lemma add_nodes_Cons: "add_nodes ((n, s) # calls) g = add_nodes calls (add_node n s g)"
  by (simp add: add_nodes_def)

lemma add_nodes_priority_ge:
  "\<forall>(n, s) \<in> set calls. s \<noteq> [] \<Longrightarrow>
   node_priority g m \<le> node_priority (add_nodes calls g) m"
proof (induction calls arbitrary: g)
  case Nil
  show ?case by (simp add: add_nodes_def)
next
  case (Cons c calls)
  obtain n s where c: "c = (n, s)" by (cases c)
  from Cons.prems c have ne: "s \<noteq> []" and rest: "\<forall>(n, s) \<in> set calls. s \<noteq> []" by auto
  have "node_priority g m \<le> node_priority (add_node n s g) m"
    using ne by (simp add: add_node_priority)
  also have "\<dots> \<le> node_priority (add_nodes calls (add_node n s g)) m"
    using rest by (rule Cons.IH)
  finally show ?case by (simp add: add_nodes_Cons c)
qed

lemma add_nodes_priority_seen:
  "\<forall>(n, s) \<in> set calls. s \<noteq> [] \<Longrightarrow> (n, s) \<in> set calls \<Longrightarrow>
   get_style_priority s \<le> node_priority (add_nodes calls g) n"
proof (induction calls arbitrary: g)
  case Nil
  then show ?case by simp
next
  case (Cons c calls)
  obtain n' s' where c: "c = (n', s')" by (cases c)
  from Cons.prems(1) c have ne: "s' \<noteq> []" and rest: "\<forall>(n, s) \<in> set calls. s \<noteq> []"
    by auto
  show ?case
  proof (cases "(n, s) = c")
    case True
    then have "get_style_priority s \<le> node_priority (add_node n' s' g) n"
      using ne by (simp add: c add_node_priority)
    also have "\<dots> \<le> node_priority (add_nodes calls (add_node n' s' g)) n"
      using rest by (rule add_nodes_priority_ge)
    finally show ?thesis by (simp add: add_nodes_Cons c)
  next
    case False
    with Cons.prems have "(n, s) \<in> set calls" by auto
    with rest show ?thesis unfolding c add_nodes_Cons by (rule Cons.IH)
  qed
qed

lemma add_nodes_style:
  "map_of (nodes (add_nodes calls g)) m = map_of (nodes g) m \<or>
   (\<exists>s. (m, s) \<in> set calls \<and> map_of (nodes (add_nodes calls g)) m = Some s)"
proof (induction calls arbitrary: g)
  case Nil
  show ?case by (simp add: add_nodes_def)
next
  case (Cons c calls)
  obtain n' s' where c: "c = (n', s')" by (cases c)
  from Cons.IH [of "add_node n' s' g"] add_node_style [of n' s' g m]
  show ?case unfolding c add_nodes_Cons by auto
qed

text \<open>
  Claim C5 (style monotonicity). Take any sequence of \<open>_add_node\<close> calls on a fresh
  generator in which every style is one of the three tags \<open>db\<close> (table), \<open>source\<close>
  and \<open>box\<close> (model), in any order and mixed with calls for other names. For every
  name that occurs in the sequence, the style recorded in the end is one of the styles
  the name was given, no style the name was given has a higher priority, and it is the
  only given style of that priority: it is the highest-priority style seen, under
  \<open>box\<close> (3) over \<open>source\<close> (2) over \<open>db\<close> (1).
\<close>

theorem style_monotonicity:
  assumes styles: "\<forall>(n, s) \<in> set calls. s \<in> {''db'', ''source'', ''box''}"
      and seen: "name \<in> fst ` set calls"
  shows "\<exists>s. map_of (nodes (add_nodes calls lineage_init)) name = Some s
           \<and> (name, s) \<in> set calls
           \<and> (\<forall>s'. (name, s') \<in> set calls \<longrightarrow> get_style_priority s' \<le> get_style_priority s)
           \<and> (\<forall>s'. (name, s') \<in> set calls \<and> get_style_priority s' = get_style_priority s \<longrightarrow> s' = s)"
proof -
  let ?g = "add_nodes calls lineage_init"
  from seen obtain s0 where s0: "(name, s0) \<in> set calls" by auto
  with styles have "s0 \<in> {''db'', ''source'', ''box''}" by auto
  then have "1 \<le> get_style_priority s0" by (auto simp: get_style_priority_def)
  moreover note add_nodes_priority_seen [OF _ s0, of lineage_init]
  moreover from styles have ne: "\<forall>(n, s) \<in> set calls. s \<noteq> []" by auto
  ultimately have pos: "1 \<le> node_priority ?g name" by simp
  have "map_of (nodes ?g) name \<noteq> None"
    using pos by (auto simp: node_priority_def split: option.splits)
  with add_nodes_style [of calls lineage_init name]
  obtain s where s: "(name, s) \<in> set calls" "map_of (nodes ?g) name = Some s"
    by (auto simp: lineage_init_def)
  from s(1) styles have s3: "s \<in> {''db'', ''source'', ''box''}" by auto
  then have pr: "node_priority ?g name = get_style_priority s"
    using s(2) by (auto simp: node_priority_def)
  have max: "\<forall>s'. (name, s') \<in> set calls \<longrightarrow> get_style_priority s' \<le> get_style_priority s"
    using add_nodes_priority_seen [OF ne, of name _ lineage_init] pr by auto
  have inj: "\<forall>s'. (name, s') \<in> set calls \<and> get_style_priority s' = get_style_priority s \<longrightarrow> s' = s"
  proof (intro allI impI)
    fix s' assume h: "(name, s') \<in> set calls \<and> get_style_priority s' = get_style_priority s"
    with styles have "s' \<in> {''db'', ''source'', ''box''}" by auto
    with s3 h show "s' = s" by (auto simp: get_style_priority_def)
  qed
  from s max inj show ?thesis by blast
qed

theorem style_monotonicity_witness:
  "map_of (nodes (add_nodes [(''orders'', ''db''), (''orders'', ''box''), (''users'', ''source''),
       (''orders'', ''source''), (''orders'', ''db'')] lineage_init)) ''orders'' = Some ''box''"
proof -
  let ?calls = "[(''orders'', ''db''), (''orders'', ''box''), (''users'', ''source''),
       (''orders'', ''source''), (''orders'', ''db'')]"
  have a: "\<forall>(n, s) \<in> set ?calls. s \<in> {''db'', ''source'', ''box''}" by simp
  have b: "''orders'' \<in> fst ` set ?calls" by simp
  from style_monotonicity [OF a b] obtain s where
    s: "map_of (nodes (add_nodes ?calls lineage_init)) ''orders'' = Some s"
    and m: "\<forall>s'. (''orders'', s') \<in> set ?calls \<longrightarrow> get_style_priority s' \<le> get_style_priority s"
    and i: "(''orders'', s) \<in> set ?calls"
    by blast
  from m have "get_style_priority ''box'' \<le> get_style_priority s" by simp
  with i have "s = ''box''" by (auto simp: get_style_priority_def)
  with s show ?thesis by simp
qed










section \<open>Properties of the schema writer\<close>

subsection \<open>The kept relations are preorders\<close>

lemma get_truthy_key: "get_truthy m k \<Longrightarrow> k \<in> fst ` set m"
  by (auto simp: get_truthy_def split: option.splits dest: map_of_SomeD intro: rev_image_eqI)

lemma col_kept_iff:
  "col_kept (YMap cm) (YMap cm') \<longleftrightarrow> (\<forall>k. get_truthy cm k \<longrightarrow> map_of cm' k = map_of cm k)"
  using get_truthy_key [of cm] by (auto simp: list_all_iff)

lemma col_kept_refl: "col_kept c c"
  by (cases c) (simp_all add: list_all_iff)

lemma col_kept_trans:
  assumes "col_kept a b" and "col_kept b c"
  shows "col_kept a c"
proof (cases a)
  case (YMap am)
  show ?thesis
  proof (cases b)
    case (YMap bm)
    show ?thesis
    proof (cases c)
      case (YMap cm)
      have ab: "\<forall>k. get_truthy am k \<longrightarrow> map_of bm k = map_of am k"
        using assms(1) \<open>a = YMap am\<close> \<open>b = YMap bm\<close> by (simp only: col_kept_iff)
      have bc: "\<forall>k. get_truthy bm k \<longrightarrow> map_of cm k = map_of bm k"
        using assms(2) \<open>b = YMap bm\<close> YMap by (simp only: col_kept_iff)
      have "\<forall>k. get_truthy am k \<longrightarrow> map_of cm k = map_of am k"
      proof (intro allI impI)
        fix k assume t: "get_truthy am k"
        with ab have e: "map_of bm k = map_of am k" by blast
        with t have "get_truthy bm k" by (simp add: get_truthy_def)
        with bc e show "map_of cm k = map_of am k" by simp
      qed
      then show ?thesis using \<open>a = YMap am\<close> YMap by (simp only: col_kept_iff)
    qed (use assms \<open>a = YMap am\<close> YMap in simp_all)
  qed (use assms YMap in simp_all)
qed (use assms in \<open>cases b; simp\<close>)+

lemma cols_kept_refl: "cols_kept co co"
proof (cases co)
  case (Some v)
  then show ?thesis by (cases v) (simp_all add: list_all2_refl col_kept_refl)
qed simp

lemma cols_kept_trans:
  assumes "cols_kept a b" and "cols_kept b c"
  shows "cols_kept a c"
proof -
  consider (seq) as bs cs where "a = Some (YSeq as)" "b = Some (YSeq bs)" "c = Some (YSeq cs)"
    | (eq1) "b = a" | (eq2) "c = b"
  proof (cases a)
    case None
    with assms(1) have "b = a" by simp
    then show ?thesis by (rule eq1)
  next
    case (Some av)
    show ?thesis
    proof (cases "\<exists>as. av = YSeq as")
      case False
      with Some assms(1) have "b = a" by (cases av) auto
      then show ?thesis by (rule eq1)
    next
      case True
      then obtain as where as: "av = YSeq as" by blast
      show ?thesis
      proof (cases "\<exists>bs. b = Some (YSeq bs)")
        case False
        with Some as assms(1) have "b = a"
          by (cases b; cases "the b") auto
        then show ?thesis by (rule eq1)
      next
        case True
        then obtain bs where bs: "b = Some (YSeq bs)" by blast
        show ?thesis
        proof (cases "\<exists>cs. c = Some (YSeq cs)")
          case False
          with bs assms(2) have "c = b"
            by (cases c; cases "the c") auto
          then show ?thesis by (rule eq2)
        next
          case True
          then obtain cs where "c = Some (YSeq cs)" by blast
          with Some as bs show ?thesis by (intro seq) auto
        qed
      qed
    qed
  qed
  then show ?thesis
  proof cases
    case seq
    with assms show ?thesis
      by (auto elim: list_all2_trans [rotated] intro: col_kept_trans)
  qed (use assms in auto)
qed


lemma cols_kept_iff:
  "cols_kept co co' \<longleftrightarrow>
     co' = co \<or> (\<exists>cs cs'. co = Some (YSeq cs) \<and> co' = Some (YSeq cs') \<and> list_all2 col_kept cs cs')"
  by (induction co co' rule: cols_kept.induct) (auto simp: list_all2_refl col_kept_refl)

lemma node_kept_iff:
  "node_kept n n' \<longleftrightarrow>
     n' = n \<or> (\<exists>nm nm'. n = YMap nm \<and> n' = YMap nm'
       \<and> AList.delete ''description'' (AList.delete ''columns'' nm')
           = AList.delete ''description'' (AList.delete ''columns'' nm)
       \<and> (get_truthy nm ''description'' \<longrightarrow> map_of nm' ''description'' = map_of nm ''description'')
       \<and> cols_kept (map_of nm ''columns'') (map_of nm' ''columns''))"
  by (induction n n' rule: node_kept.induct) (auto simp: cols_kept_refl)

lemma node_kept_refl: "node_kept n n"
  by (simp add: node_kept_iff)

lemma node_kept_trans:
  assumes "node_kept a b" and "node_kept b c"
  shows "node_kept a c"
proof (cases "b = a \<or> c = b")
  case True
  with assms show ?thesis by auto
next
  case False
  from assms(1) False obtain am bm where m1: "a = YMap am" "b = YMap bm"
    and ab: "AList.delete ''description'' (AList.delete ''columns'' bm)
           = AList.delete ''description'' (AList.delete ''columns'' am)"
      "get_truthy am ''description'' \<longrightarrow> map_of bm ''description'' = map_of am ''description''"
      "cols_kept (map_of am ''columns'') (map_of bm ''columns'')"
    unfolding node_kept_iff [of a b] by blast
  from assms(2) False m1 obtain cm where m2: "c = YMap cm"
    and bc: "AList.delete ''description'' (AList.delete ''columns'' cm)
           = AList.delete ''description'' (AList.delete ''columns'' bm)"
      "get_truthy bm ''description'' \<longrightarrow> map_of cm ''description'' = map_of bm ''description''"
      "cols_kept (map_of bm ''columns'') (map_of cm ''columns'')"
    unfolding node_kept_iff [of b c] by blast
  have d: "get_truthy am ''description'' \<longrightarrow> map_of cm ''description'' = map_of am ''description''"
    using ab(2) bc(2) by (auto simp: get_truthy_def)
  have "cols_kept (map_of am ''columns'') (map_of cm ''columns'')"
    using ab(3) bc(3) by (rule cols_kept_trans)
  with ab(1) bc(1) d m1 m2 show ?thesis by (simp add: node_kept_iff)
qed

lemma models_kept_iff:
  "models_kept mo mo' \<longleftrightarrow>
     mo = None \<or> mo' = mo \<or> (\<exists>ns ns'. mo = Some (YSeq ns) \<and> mo' = Some (YSeq ns')
       \<and> length ns \<le> length ns' \<and> (\<forall>i<length ns. node_kept (ns ! i) (ns' ! i)))"
  by (induction mo mo' rule: models_kept.induct)
     (auto simp: list_all2_conv_all_nth node_kept_refl)

lemma models_kept_refl: "models_kept mo mo"
  by (simp add: models_kept_iff)

lemma models_kept_trans:
  assumes "models_kept a b" and "models_kept b c"
  shows "models_kept a c"
proof (cases "a = None \<or> b = a \<or> c = b")
  case True
  with assms show ?thesis by (auto simp: models_kept_iff)
next
  case False
  from assms(1) False obtain as bs where m1: "a = Some (YSeq as)" "b = Some (YSeq bs)"
    and ab: "length as \<le> length bs" "\<forall>i<length as. node_kept (as ! i) (bs ! i)"
    unfolding models_kept_iff [of a b] by blast
  from assms(2) False m1 obtain cs where m2: "c = Some (YSeq cs)"
    and bc: "length bs \<le> length cs" "\<forall>i<length bs. node_kept (bs ! i) (cs ! i)"
    unfolding models_kept_iff [of b c] by auto
  have "\<forall>i<length as. node_kept (as ! i) (cs ! i)"
  proof (intro allI impI)
    fix i assume i: "i < length as"
    with ab have "node_kept (as ! i) (bs ! i)" by blast
    moreover from i ab(1) bc(2) have "node_kept (bs ! i) (cs ! i)" by simp
    ultimately show "node_kept (as ! i) (cs ! i)" by (rule node_kept_trans)
  qed
  with ab(1) bc(1) m1 m2 show ?thesis by (simp add: models_kept_iff)
qed

lemma doc_kept_iff:
  "doc_kept d d' \<longleftrightarrow>
     d' = d \<or> (\<exists>dm dm'. d = YMap dm \<and> d' = YMap dm'
       \<and> AList.delete ''models'' dm' = AList.delete ''models'' dm
       \<and> models_kept (map_of dm ''models'') (map_of dm' ''models''))"
  by (induction d d' rule: doc_kept.induct) (auto simp: models_kept_refl)

lemma doc_kept_refl: "doc_kept d d"
  by (simp add: doc_kept_iff)

lemma doc_kept_trans:
  assumes "doc_kept a b" and "doc_kept b c"
  shows "doc_kept a c"
proof (cases "b = a \<or> c = b")
  case True
  with assms show ?thesis by auto
next
  case False
  from assms(1) False obtain am bm where m1: "a = YMap am" "b = YMap bm"
    and ab: "AList.delete ''models'' bm = AList.delete ''models'' am"
      "models_kept (map_of am ''models'') (map_of bm ''models'')"
    unfolding doc_kept_iff [of a b] by blast
  from assms(2) False m1 obtain cm where m2: "c = YMap cm"
    and bc: "AList.delete ''models'' cm = AList.delete ''models'' bm"
      "models_kept (map_of bm ''models'') (map_of cm ''models'')"
    unfolding doc_kept_iff [of b c] by blast
  from ab(2) bc(2) have "models_kept (map_of am ''models'') (map_of cm ''models'')"
    by (rule models_kept_trans)
  with ab(1) bc(1) m1 m2 show ?thesis by (simp add: doc_kept_iff)
qed

lemma writer_kept_refl: "writer_kept w w"
  by (simp add: writer_kept_def doc_kept_refl)

lemma writer_kept_trans:
  assumes "writer_kept a b" and "writer_kept b c"
  shows "writer_kept a c"
proof -
  have docs: "\<forall>p d. map_of (yaml_files a) p = Some d \<longrightarrow>
            (\<exists>d'. map_of (yaml_files c) p = Some d' \<and> doc_kept d d')"
  proof (intro allI impI)
    fix p d assume "map_of (yaml_files a) p = Some d"
    with assms(1) obtain d1 where d1: "map_of (yaml_files b) p = Some d1" "doc_kept d d1"
      unfolding writer_kept_def by blast
    with assms(2) obtain d2 where d2: "map_of (yaml_files c) p = Some d2" "doc_kept d1 d2"
      unfolding writer_kept_def by blast
    from d1(2) d2(2) have "doc_kept d d2" by (rule doc_kept_trans)
    with d2(1) show "\<exists>d'. map_of (yaml_files c) p = Some d' \<and> doc_kept d d'" by blast
  qed
  have dirty: "\<forall>p. map_of (yaml_files c) p \<noteq> map_of (yaml_files a) p \<longrightarrow> p \<in> set (files_to_write c)"
  proof (intro allI impI)
    fix p assume ne: "map_of (yaml_files c) p \<noteq> map_of (yaml_files a) p"
    show "p \<in> set (files_to_write c)"
    proof (cases "map_of (yaml_files b) p = map_of (yaml_files a) p")
      case True
      with ne assms(2) show ?thesis unfolding writer_kept_def by auto
    next
      case False
      with assms(1) have "p \<in> set (files_to_write b)" unfolding writer_kept_def by auto
      with assms(2) show ?thesis unfolding writer_kept_def by auto
    qed
  qed
  from assms docs dirty show ?thesis unfolding writer_kept_def by auto
qed

subsection \<open>One step of the known-model path\<close>

lemma only_stdin_refl: "only_stdin w w"
  by (simp add: only_stdin_def)

lemma only_stdin_trans: "only_stdin a b \<Longrightarrow> only_stdin b c \<Longrightarrow> only_stdin a c"
  unfolding only_stdin_def
  by (cases a; cases b; cases c) (auto intro: suffix_order.trans)

lemma only_stdin_fields:
  "only_stdin w w' \<Longrightarrow> mode w' = mode w \<and> dbt_project_dir w' = dbt_project_dir w
     \<and> yaml_files w' = yaml_files w \<and> model_to_file_map w' = model_to_file_map w
     \<and> files_to_write w' = files_to_write w"
  unfolding only_stdin_def by (cases w; cases w') simp

lemma prompt_user_for_change_res:
  "prompt_user_for_change w = Inr (r, w') \<Longrightarrow> only_stdin w w'"
  by (auto simp: prompt_user_for_change_def only_stdin_def suffix_Cons split: list.splits if_splits)

lemma process_update_res:
  assumes "process_update w n k v = Inr (ch, n', w')"
  shows "only_stdin w w'" and "\<not> ch \<Longrightarrow> n' = n" and "n' = n \<or> (\<exists>v'. n' = AList.update k v' n)"
  using assms
  by (auto simp: process_update_def only_stdin_refl split: if_splits sum.splits option.splits
      dest: prompt_user_for_change_res)

lemma fill_keys_res:
  assumes "fill_keys w cm kvs = Inr (ch, cm', w')"
  shows "only_stdin w w' \<and> (\<forall>k. get_truthy cm k \<longrightarrow> map_of cm' k = map_of cm k)
         \<and> (\<not> ch \<longrightarrow> cm' = cm)"
  using assms
proof (induction kvs arbitrary: w cm ch)
  case Nil
  then show ?case by (simp add: only_stdin_refl)
next
  case (Cons kv kvs)
  obtain key ai_value where kv: "kv = (key, ai_value)" by (cases kv)
  show ?case
  proof (cases "get_truthy cm key")
    case True
    with Cons.prems kv have "fill_keys w cm kvs = Inr (ch, cm', w')" by simp
    then show ?thesis by (rule Cons.IH)
  next
    case False
    with Cons.prems kv have e: "(case process_update w cm key ai_value of
           Inl e \<Rightarrow> Inl e
         | Inr (changed, column_config', w') \<Rightarrow>
             (case fill_keys w' column_config' kvs of
                Inl e \<Rightarrow> Inl e
              | Inr (changed', column_config'', w'') \<Rightarrow>
                  Inr (changed \<or> changed', column_config'', w''))) = Inr (ch, cm', w')"
      by simp
    then obtain c1 cm1 w1 where p: "process_update w cm key ai_value = Inr (c1, cm1, w1)"
      by (cases "process_update w cm key ai_value") auto
    with e obtain c2 where f: "fill_keys w1 cm1 kvs = Inr (c2, cm', w')" and ch: "ch = (c1 \<or> c2)"
      by (cases "fill_keys w1 cm1 kvs") auto
    note ih = Cons.IH [OF f]
    note pu = process_update_res [OF p]
    have s: "only_stdin w w'" using pu(1) ih by (blast intro: only_stdin_trans)
    have keep1: "\<forall>k. get_truthy cm k \<longrightarrow> map_of cm1 k = map_of cm k"
      using pu(3) False by (auto simp: update_conv')
    have keep: "\<forall>k. get_truthy cm k \<longrightarrow> map_of cm' k = map_of cm k"
    proof (intro allI impI)
      fix k assume t: "get_truthy cm k"
      with keep1 have e: "map_of cm1 k = map_of cm k" by blast
      with t have "get_truthy cm1 k" by (simp add: get_truthy_def)
      with ih e show "map_of cm' k = map_of cm k" by simp
    qed
    have "\<not> ch \<longrightarrow> cm' = cm" using ch pu(2) ih by auto
    with s keep show ?thesis by blast
  qed
qed

lemma update_column_res:
  assumes "update_column w ai c = Inr (ch, c', w')"
  shows "only_stdin w w' \<and> col_kept c c' \<and> (\<not> ch \<longrightarrow> c' = c)"
proof (cases c)
  case (YMap cm)
  show ?thesis
  proof (cases "find (\<lambda>a. map_of cm ''name'' = Some (YStr (column_name a))) (columns ai)")
    case None
    with assms YMap show ?thesis
      by (simp add: update_column_def only_stdin_refl col_kept_refl)
  next
    case (Some ac)
    show ?thesis
    proof (cases "mode w = Drift \<and> get_truthy cm ''description'' \<and> drift_status ac = Some ''DRIFT''")
      case True
      with assms YMap Some have "ch" "c' = c" "w' = w"
        by (simp_all add: update_column_def)
      then show ?thesis by (simp add: only_stdin_refl col_kept_refl)
    next
      case False
      with assms YMap Some obtain cm' where
        f: "fill_keys w cm (ai_generated ac) = Inr (ch, cm', w')" and c': "c' = YMap cm'"
        by (auto simp: update_column_def split: sum.splits)
      note r = fill_keys_res [OF f]
      from r have "col_kept (YMap cm) (YMap cm')" unfolding col_kept_iff by blast
      with r c' YMap show ?thesis by blast
    qed
  qed
qed (use assms in \<open>simp_all add: update_column_def\<close>)


lemma update_columns_res:
  assumes "update_columns w ai cs = Inr (ch, cs', w')"
  shows "only_stdin w w' \<and> list_all2 col_kept cs cs' \<and> (\<not> ch \<longrightarrow> cs' = cs)"
  using assms
proof (induction cs arbitrary: w ch cs')
  case Nil
  then show ?case by (simp add: only_stdin_refl)
next
  case (Cons c cs)
  from Cons.prems obtain c1 x w1 where u: "update_column w ai c = Inr (c1, x, w1)"
    by (cases "update_column w ai c") auto
  with Cons.prems obtain c2 xs where r: "update_columns w1 ai cs = Inr (c2, xs, w')"
    and e: "ch = (c1 \<or> c2)" "cs' = x # xs"
    by (cases "update_columns w1 ai cs") auto
  note a = update_column_res [OF u]
  note b = Cons.IH [OF r]
  from a b have "only_stdin w w'" by (blast intro: only_stdin_trans)
  with a b e show ?case by auto
qed

lemma update_node_res:
  assumes "update_node w ai nm = Inr (ch, nm', w')"
  shows "only_stdin w w' \<and> node_kept (YMap nm) (YMap nm') \<and> (\<not> ch \<longrightarrow> nm' = nm)"
proof -
  let ?d = "(case model_description ai of
              None \<Rightarrow> Inr (False, nm, w)
            | Some d \<Rightarrow>
                if \<not> get_truthy nm ''description'' \<and> truthy d
                then process_update w nm ''description'' d
                else Inr (False, nm, w))"
  from assms obtain c1 nm1 w1 where d: "?d = Inr (c1, nm1, w1)"
    unfolding update_node_def by (cases ?d) auto
  let ?cv = "(case map_of nm1 ''columns'' of None \<Rightarrow> YSeq [] | Some v \<Rightarrow> v)"
  from assms d obtain cs where it: "py_iter ?cv = Inr cs"
    unfolding update_node_def by (cases "py_iter ?cv") auto
  from assms d it obtain c2 cs' where u: "update_columns w1 ai cs = Inr (c2, cs', w')"
    and ch: "ch = (c1 \<or> c2)"
    and nm': "nm' = (case map_of nm1 ''columns'' of
                      Some (YSeq _) \<Rightarrow> AList.update ''columns'' (YSeq cs') nm1
                    | _ \<Rightarrow> nm1)"
    unfolding update_node_def by (cases "update_columns w1 ai cs") auto
  have d1: "only_stdin w w1" "\<not> c1 \<longrightarrow> nm1 = nm"
    "nm1 = nm \<or> (\<not> get_truthy nm ''description'' \<and> (\<exists>v. nm1 = AList.update ''description'' v nm))"
    using d process_update_res [of w nm "''description''" _ c1 nm1 w1]
    by (auto simp: only_stdin_refl split: option.splits if_splits)
  note uc = update_columns_res [OF u]
  have s: "only_stdin w w'" using d1(1) uc by (blast intro: only_stdin_trans)
  have cols1: "map_of nm1 ''columns'' = map_of nm ''columns''"
    using d1(3) by (auto simp: update_conv')
  have del1: "AList.delete ''description'' (AList.delete ''columns'' nm1)
        = AList.delete ''description'' (AList.delete ''columns'' nm)"
    using d1(3) by (auto simp: delete_update delete_update_same)
  have desc1: "get_truthy nm ''description'' \<longrightarrow> nm1 = nm" using d1(3) by auto
  show ?thesis
  proof (cases "\<exists>xs. map_of nm1 ''columns'' = Some (YSeq xs)")
    case True
    then obtain xs where xs: "map_of nm1 ''columns'' = Some (YSeq xs)" by blast
    with it have cs: "cs = xs" by simp
    from xs nm' have n2: "nm' = AList.update ''columns'' (YSeq cs') nm1" by simp
    have del: "AList.delete ''description'' (AList.delete ''columns'' nm')
        = AList.delete ''description'' (AList.delete ''columns'' nm)"
      using del1 by (simp add: n2 delete_update_same)
    have desc: "get_truthy nm ''description'' \<longrightarrow> map_of nm' ''description'' = map_of nm ''description''"
      using desc1 by (auto simp: n2 update_conv')
    have cols: "cols_kept (map_of nm ''columns'') (map_of nm' ''columns'')"
      using uc xs cols1 cs by (simp add: n2 update_conv')
    have same: "\<not> ch \<longrightarrow> nm' = nm"
      using ch d1(2) uc xs cs by (auto simp: n2 update_triv)
    from s del desc cols same show ?thesis by simp
  next
    case False
    with nm' have n2: "nm' = nm1"
      by (auto split: option.splits yaml.splits)
    have cols: "cols_kept (map_of nm ''columns'') (map_of nm' ''columns'')"
      using cols1 by (simp add: n2 cols_kept_refl)
    have desc: "get_truthy nm ''description'' \<longrightarrow> map_of nm' ''description'' = map_of nm ''description''"
      using desc1 by (auto simp: n2)
    have same: "\<not> ch \<longrightarrow> nm' = nm" using ch d1(2) by (simp add: n2)
    from s del1 desc cols same show ?thesis by (simp add: n2)
  qed
qed

lemma only_stdin_kept: "only_stdin w w' \<Longrightarrow> writer_kept w w'"
  using only_stdin_fields [of w w'] by (auto simp: writer_kept_def doc_kept_refl)

lemma find_node_Some:
  "find_node ns m = Inr (Some i) \<Longrightarrow>
     i < length ns \<and> (\<exists>nm. ns ! i = YMap nm \<and> map_of nm ''name'' = Some (YStr m))"
proof (induction ns arbitrary: i)
  case Nil
  then show ?case by simp
next
  case (Cons n ns)
  then show ?case
    by (cases n; cases i) (auto split: if_splits sum.splits option.splits)
qed

lemma find_node_not_map:
  "ns \<noteq> [] \<Longrightarrow> \<forall>n \<in> set ns. \<not> (\<exists>nm. n = YMap nm) \<Longrightarrow> find_node ns m = Inl AttributeError"
  by (cases ns; cases "hd ns") auto

lemma py_iter_found_seq:
  assumes "py_iter v = Inr ns" and "find_node ns m = Inr (Some i)"
  shows "v = YSeq ns"
proof (cases v)
  case (YMap xs)
  with assms(1) have ns: "ns = map (\<lambda>kv. YStr (fst kv)) xs" by simp
  show ?thesis
  proof (cases "ns = []")
    case True
    with assms(2) show ?thesis by simp
  next
    case False
    with ns have "find_node ns m = Inl AttributeError"
      by (intro find_node_not_map) auto
    with assms(2) show ?thesis by simp
  qed
next
  case (YStr s)
  with assms(1) have ns: "ns = map (\<lambda>c. YStr [c]) s" by simp
  show ?thesis
  proof (cases "ns = []")
    case True
    with assms(2) show ?thesis by simp
  next
    case False
    with ns have "find_node ns m = Inl AttributeError"
      by (intro find_node_not_map) auto
    with assms(2) show ?thesis by simp
  qed
qed (use assms in simp_all)

lemma set_add_set: "set (set_add x xs) = insert x (set xs)"
  by (auto simp: set_add_def)

text \<open>The shape of a successful call that found its node.\<close>

lemma update_existing_found:
  assumes "update_existing_model_in_memory w p m ai = Inr (ch, w')"
  shows "(ch = False \<and> w' = w) \<or>
    (\<exists>dm ns i nm nm' w1.
       map_of (yaml_files w) p = Some (YMap dm) \<and> map_of dm ''models'' = Some (YSeq ns)
       \<and> find_node ns m = Inr (Some i) \<and> ns ! i = YMap nm
       \<and> update_node w ai nm = Inr (ch, nm', w1)
       \<and> w' = w1\<lparr>yaml_files := AList.update p
                   (YMap (AList.update ''models'' (YSeq (ns[i := YMap nm'])) dm)) (yaml_files w1),
                 files_to_write := (if ch then set_add p (files_to_write w1) else files_to_write w1)\<rparr>)"
proof (cases "map_of (yaml_files w) p")
  case None
  with assms show ?thesis by (simp add: update_existing_model_in_memory_def)
next
  case (Some data)
  show ?thesis
  proof (cases "truthy data")
    case False
    with assms Some show ?thesis by (simp add: update_existing_model_in_memory_def)
  next
    case True
    with assms Some obtain dm where dm: "data = YMap dm"
      by (cases data) (simp_all add: update_existing_model_in_memory_def)
    let ?v = "case map_of dm ''models'' of None \<Rightarrow> YSeq [] | Some v \<Rightarrow> v"
    from assms Some True dm obtain ns where ns: "py_iter ?v = Inr ns"
      by (cases "py_iter ?v") (simp_all add: update_existing_model_in_memory_def)
    from assms Some True dm ns obtain r where r: "find_node ns m = Inr r"
      by (cases "find_node ns m") (simp_all add: update_existing_model_in_memory_def)
    show ?thesis
    proof (cases r)
      case None
      with assms Some True dm ns r show ?thesis
        by (simp add: update_existing_model_in_memory_def)
    next
      case (Some i)
      with r have f: "find_node ns m = Inr (Some i)" by simp
      from find_node_Some [OF f] obtain nm where nm: "ns ! i = YMap nm" by blast
      from py_iter_found_seq [OF ns f] have v: "?v = YSeq ns" .
      have "ns \<noteq> []" using f by auto
      with v have mo: "map_of dm ''models'' = Some (YSeq ns)"
        by (auto split: option.splits)
      from assms \<open>map_of (yaml_files w) p = Some data\<close> True dm ns f nm
      obtain nm' w1 where u: "update_node w ai nm = Inr (ch, nm', w1)"
        and w': "w' = w1\<lparr>yaml_files := AList.update p
                   (YMap (AList.update ''models'' (YSeq (ns[i := YMap nm'])) dm)) (yaml_files w1),
                 files_to_write := (if ch then set_add p (files_to_write w1) else files_to_write w1)\<rparr>"
        by (cases "update_node w ai nm") (auto simp: update_existing_model_in_memory_def)
      with \<open>map_of (yaml_files w) p = Some data\<close> dm mo f nm show ?thesis by blast
    qed
  qed
qed

lemma update_existing_res:
  assumes "update_existing_model_in_memory w p m ai = Inr (ch, w')"
  shows "writer_kept w w' \<and> (\<not> ch \<longrightarrow> yaml_files w' = yaml_files w \<and> files_to_write w' = files_to_write w)"
  using update_existing_found [OF assms]
proof (elim disjE exE conjE)
  assume "ch = False" "w' = w"
  then show ?thesis by (simp add: writer_kept_refl)
next
  fix dm ns i nm nm' w1
  assume d: "map_of (yaml_files w) p = Some (YMap dm)"
    and mo: "map_of dm ''models'' = Some (YSeq ns)"
    and f: "find_node ns m = Inr (Some i)" and nm: "ns ! i = YMap nm"
    and u: "update_node w ai nm = Inr (ch, nm', w1)"
    and w': "w' = w1\<lparr>yaml_files := AList.update p
                   (YMap (AList.update ''models'' (YSeq (ns[i := YMap nm'])) dm)) (yaml_files w1),
                 files_to_write := (if ch then set_add p (files_to_write w1) else files_to_write w1)\<rparr>"
  let ?dm' = "AList.update ''models'' (YSeq (ns[i := YMap nm'])) dm"
  note un = update_node_res [OF u]
  note fl = only_stdin_fields [of w w1]
  from find_node_Some [OF f] have i: "i < length ns" by blast
  have yf: "yaml_files w' = AList.update p (YMap ?dm') (yaml_files w)"
    using un fl by (simp add: w')
  have id: "ns[i := YMap nm] = ns"
    using list_update_id [of ns i] nm by simp
  have same: "\<not> ch \<longrightarrow> ?dm' = dm"
    using un mo id by (auto simp: update_triv)
  from un have nn: "node_kept (YMap nm) (YMap nm')" by blast
  have nk: "\<forall>j<length ns. node_kept (ns ! j) (ns[i := YMap nm'] ! j)"
  proof (intro allI impI)
    fix j assume j: "j < length ns"
    show "node_kept (ns ! j) (ns[i := YMap nm'] ! j)"
    proof (cases "j = i")
      case True
      with j nm nn show ?thesis by (simp only: nth_list_update_eq)
    next
      case False
      then show ?thesis by (simp add: node_kept_refl)
    qed
  qed
  have dk: "doc_kept (YMap dm) (YMap ?dm')"
    using nk mo by (simp add: delete_update_same update_conv' models_kept_iff)
  have docs: "\<forall>q d. map_of (yaml_files w) q = Some d \<longrightarrow>
            (\<exists>d'. map_of (yaml_files w') q = Some d' \<and> doc_kept d d')"
    using d dk by (auto simp: yf update_conv' doc_kept_refl)
  have dirty: "\<forall>q. map_of (yaml_files w') q \<noteq> map_of (yaml_files w) q \<longrightarrow> q \<in> set (files_to_write w')"
  proof (intro allI impI)
    fix q assume ne: "map_of (yaml_files w') q \<noteq> map_of (yaml_files w) q"
    then have "q = p" by (auto simp: yf update_conv' split: if_splits)
    moreover from ne d same have "ch" by (auto simp: yf update_conv' split: if_splits)
    ultimately show "q \<in> set (files_to_write w')" by (simp add: w' set_add_set)
  qed
  have mono: "set (files_to_write w) \<subseteq> set (files_to_write w')"
    using un fl by (auto simp: w' set_add_set)
  have cfg: "mode w' = mode w \<and> dbt_project_dir w' = dbt_project_dir w
      \<and> model_to_file_map w' = model_to_file_map w"
    using un fl by (simp add: w')
  have unchanged: "\<not> ch \<longrightarrow> yaml_files w' = yaml_files w \<and> files_to_write w' = files_to_write w"
    using same d un fl by (auto simp: yf w' update_triv)
  from cfg docs dirty mono unchanged show ?thesis by (simp add: writer_kept_def)
qed

subsection \<open>One step of the unknown-model path\<close>

lemma stub_keys_res:
  "stub_keys w n kvs = Inr (n', w') \<Longrightarrow> only_stdin w w'"
proof (induction kvs arbitrary: w n)
  case Nil
  then show ?case by (simp add: only_stdin_refl)
next
  case (Cons kv kvs)
  obtain key v where kv: "kv = (key, v)" by (cases kv)
  from Cons.prems kv obtain c n1 w1 where p: "process_update w n key v = Inr (c, n1, w1)"
    by (cases "process_update w n key v") auto
  with Cons.prems kv have "stub_keys w1 n1 kvs = Inr (n', w')" by simp
  from Cons.IH [OF this] process_update_res(1) [OF p] show ?case
    by (blast intro: only_stdin_trans)
qed

lemma stub_columns_res:
  "stub_columns w cols = Inr (cs, w') \<Longrightarrow> only_stdin w w'"
proof (induction cols arbitrary: w cs)
  case Nil
  then show ?case by (simp add: only_stdin_refl)
next
  case (Cons col cols)
  let ?k = "stub_keys w [(''name'', YStr (column_name col))] (ai_generated col)"
  from Cons.prems obtain n1 w1 where k: "?k = Inr (n1, w1)"
    by (cases ?k) auto
  with Cons.prems obtain xs where r: "stub_columns w1 cols = Inr (xs, w')"
    by (cases "stub_columns w1 cols") auto
  from stub_keys_res [OF k] Cons.IH [OF r] show ?case
    by (blast intro: only_stdin_trans)
qed

lemma append_stub_kept:
  assumes "append_stub d s = Inr d'"
  shows "doc_kept d d'"
proof (cases d)
  case (YMap dm)
  show ?thesis
  proof (cases "map_of dm ''models''")
    case None
    with assms YMap have d': "d' = YMap (dm @ [(''models'', YSeq [s])])"
      by (simp add: append_stub_def)
    from None show ?thesis by (simp add: YMap d' AList.delete_eq)
  next
    case (Some v)
    with assms YMap obtain ms where v: "v = YSeq ms"
      by (cases v) (simp_all add: append_stub_def)
    with assms YMap Some have d': "d' = YMap (AList.update ''models'' (YSeq (ms @ [s])) dm)"
      by (simp add: append_stub_def)
    have "list_all2 node_kept ms ms" by (rule list_all2_refl) (rule node_kept_refl)
    with Some v show ?thesis by (simp add: YMap d' delete_update_same update_conv')
  qed
qed (use assms in \<open>simp_all add: append_stub_def\<close>)

text \<open>The shape of a call that returns outside check mode.\<close>

lemma create_stub_shape:
  assumes "create_new_model_stub_in_memory w m ai = Inr (ch, w')" and "mode w \<noteq> Check"
  shows "\<exists>d c stub w1 cols w2.
      model_description ai = Some d
    \<and> process_update w [(''name'', YStr m)] ''description'' d = Inr (c, stub, w1)
    \<and> stub_columns w1 (columns ai) = Inr (cols, w2)
    \<and> ((original_file_path ai = None \<or> original_file_path ai = Some []) \<and> ch = False \<and> w' = w2
       \<or> (\<exists>sql_path. original_file_path ai = Some sql_path \<and> sql_path \<noteq> [] \<and> ch = True
           \<and> (\<exists>data'. (case map_of (yaml_files w2) (path_join (dirname sql_path) ''schema.yml'') of
                          Some data \<Rightarrow>
                            append_stub data (YMap (AList.update ''columns'' (YSeq cols) stub)) = Inr data'
                        | None \<Rightarrow>
                            data' = YMap [(''version'', YInt 2),
                              (''models'', YSeq [YMap (AList.update ''columns'' (YSeq cols) stub)])])
               \<and> w' = w2\<lparr>yaml_files :=
                           AList.update (path_join (dirname sql_path) ''schema.yml'') data' (yaml_files w2),
                         files_to_write :=
                           set_add (path_join (dirname sql_path) ''schema.yml'') (files_to_write w2)\<rparr>)))"
proof -
  from assms obtain d where d: "model_description ai = Some d"
    by (cases "model_description ai") (simp_all add: create_new_model_stub_in_memory_def)
  let ?p = "process_update w [(''name'', YStr m)] ''description'' d"
  from assms d obtain c stub w1 where p: "?p = Inr (c, stub, w1)"
    by (cases ?p) (auto simp: create_new_model_stub_in_memory_def)
  from assms d p obtain cols w2 where s: "stub_columns w1 (columns ai) = Inr (cols, w2)"
    by (cases "stub_columns w1 (columns ai)") (auto simp: create_new_model_stub_in_memory_def)
  show ?thesis
  proof (cases "original_file_path ai")
    case None
    with assms d p s have "ch = False \<and> w' = w2"
      by (auto simp: create_new_model_stub_in_memory_def)
    with d p s None show ?thesis by blast
  next
    case (Some sql_path)
    show ?thesis
    proof (cases "sql_path = []")
      case True
      with assms d p s Some have "ch = False \<and> w' = w2"
        by (auto simp: create_new_model_stub_in_memory_def)
      with d p s Some True show ?thesis by blast
    next
      case False
      let ?t = "path_join (dirname sql_path) ''schema.yml''"
      let ?stub = "YMap (AList.update ''columns'' (YSeq cols) stub)"
      show ?thesis
      proof (cases "map_of (yaml_files w2) ?t")
        case None
        with assms d p s Some False
        have "ch = True \<and> w' = w2\<lparr>yaml_files :=
                 AList.update ?t (YMap [(''version'', YInt 2), (''models'', YSeq [?stub])]) (yaml_files w2),
               files_to_write := set_add ?t (files_to_write w2)\<rparr>"
          by (auto simp: create_new_model_stub_in_memory_def Let_def)
        with d p s Some False None show ?thesis by auto
      next
        case (Some data)
        with assms d p s \<open>original_file_path ai = Some sql_path\<close> False
        obtain data' where a: "append_stub data ?stub = Inr data'"
          and "ch = True \<and> w' = w2\<lparr>yaml_files := AList.update ?t data' (yaml_files w2),
               files_to_write := set_add ?t (files_to_write w2)\<rparr>"
          by (cases "append_stub data ?stub") (auto simp: create_new_model_stub_in_memory_def Let_def)
        with d p s \<open>original_file_path ai = Some sql_path\<close> False Some show ?thesis by auto
      qed
    qed
  qed
qed

lemma create_stub_res:
  assumes "create_new_model_stub_in_memory w m ai = Inr (ch, w')"
  shows "writer_kept w w'
    \<and> (\<not> ch \<longrightarrow> yaml_files w' = yaml_files w \<and> files_to_write w' = files_to_write w)"
proof (cases "mode w = Check")
  case True
  with assms show ?thesis by (simp add: create_new_model_stub_in_memory_def writer_kept_refl)
next
  case False
  from create_stub_shape [OF assms False] obtain d c stub w1 cols w2 where
    p: "process_update w [(''name'', YStr m)] ''description'' d = Inr (c, stub, w1)"
    and s: "stub_columns w1 (columns ai) = Inr (cols, w2)"
    and r0: "(original_file_path ai = None \<or> original_file_path ai = Some []) \<and> ch = False \<and> w' = w2
       \<or> (\<exists>sql_path. original_file_path ai = Some sql_path \<and> sql_path \<noteq> [] \<and> ch = True
           \<and> (\<exists>data'. (case map_of (yaml_files w2) (path_join (dirname sql_path) ''schema.yml'') of
                          Some data \<Rightarrow>
                            append_stub data (YMap (AList.update ''columns'' (YSeq cols) stub)) = Inr data'
                        | None \<Rightarrow>
                            data' = YMap [(''version'', YInt 2),
                              (''models'', YSeq [YMap (AList.update ''columns'' (YSeq cols) stub)])])
               \<and> w' = w2\<lparr>yaml_files :=
                           AList.update (path_join (dirname sql_path) ''schema.yml'') data' (yaml_files w2),
                         files_to_write :=
                           set_add (path_join (dirname sql_path) ''schema.yml'') (files_to_write w2)\<rparr>))"
    by blast
  have r: "(ch = False \<and> w' = w2)
       \<or> (\<exists>t data'. ch = True
           \<and> (case map_of (yaml_files w2) t of
                 Some data \<Rightarrow> (\<exists>st. append_stub data st = Inr data')
               | None \<Rightarrow> True)
           \<and> w' = w2\<lparr>yaml_files := AList.update t data' (yaml_files w2),
                     files_to_write := set_add t (files_to_write w2)\<rparr>)"
    using r0
  proof (elim disjE exE conjE)
    fix sql_path data'
    let ?t = "path_join (dirname sql_path) ''schema.yml''"
    assume ch: "ch = True"
      and c: "case map_of (yaml_files w2) ?t of
                Some data \<Rightarrow>
                  append_stub data (YMap (AList.update ''columns'' (YSeq cols) stub)) = Inr data'
              | None \<Rightarrow>
                  data' = YMap [(''version'', YInt 2),
                    (''models'', YSeq [YMap (AList.update ''columns'' (YSeq cols) stub)])]"
      and w': "w' = w2\<lparr>yaml_files := AList.update ?t data' (yaml_files w2),
                     files_to_write := set_add ?t (files_to_write w2)\<rparr>"
    from c have "case map_of (yaml_files w2) ?t of
                 Some data \<Rightarrow> (\<exists>st. append_stub data st = Inr data')
               | None \<Rightarrow> True"
      by (auto split: option.splits)
    with ch w' show ?thesis by blast
  qed simp_all
  from process_update_res(1) [OF p] stub_columns_res [OF s]
  have o: "only_stdin w w2" by (blast intro: only_stdin_trans)
  note fl = only_stdin_fields [OF o]
  from r show ?thesis
  proof (elim disjE exE conjE)
    assume "ch = False" "w' = w2"
    with o fl show ?thesis by (simp add: only_stdin_kept)
  next
    fix t data'
    assume ch: "ch = True"
      and a: "case map_of (yaml_files w2) t of
                 Some data \<Rightarrow> (\<exists>st. append_stub data st = Inr data') | None \<Rightarrow> True"
      and w': "w' = w2\<lparr>yaml_files := AList.update t data' (yaml_files w2),
                     files_to_write := set_add t (files_to_write w2)\<rparr>"
    have yf: "yaml_files w' = AList.update t data' (yaml_files w)" using fl by (simp add: w')
    have fw: "set (files_to_write w') = insert t (set (files_to_write w))"
      using fl by (simp add: w' set_add_set)
    have docs: "\<forall>q d. map_of (yaml_files w) q = Some d \<longrightarrow>
            (\<exists>d'. map_of (yaml_files w') q = Some d' \<and> doc_kept d d')"
    proof (intro allI impI)
      fix q d assume q: "map_of (yaml_files w) q = Some d"
      show "\<exists>d'. map_of (yaml_files w') q = Some d' \<and> doc_kept d d'"
      proof (cases "q = t")
        case True
        with q a fl obtain st where "append_stub d st = Inr data'" by auto
        from append_stub_kept [OF this] True show ?thesis by (simp add: yf update_conv')
      next
        case False
        with q show ?thesis by (simp add: yf update_conv' doc_kept_refl)
      qed
    qed
    have dirty: "\<forall>q. map_of (yaml_files w') q \<noteq> map_of (yaml_files w) q \<longrightarrow> q \<in> set (files_to_write w')"
      by (auto simp: yf fw update_conv' split: if_splits)
    have cfg: "mode w' = mode w \<and> dbt_project_dir w' = dbt_project_dir w
      \<and> model_to_file_map w' = model_to_file_map w"
      using fl by (simp add: w')
    from cfg docs dirty fw ch show ?thesis by (auto simp: writer_kept_def)
  qed
qed

subsection \<open>The loops and the whole reconciliation\<close>

lemma update_models_res:
  "update_models w cat ms b = Inr (b', w') \<Longrightarrow> writer_kept w w'"
proof (induction ms arbitrary: w b)
  case Nil
  then show ?case by (simp add: writer_kept_refl)
next
  case (Cons m ms)
  from Cons.prems obtain p where p: "map_of (model_to_file_map w) m = Some p"
    by (cases "map_of (model_to_file_map w) m") auto
  from Cons.prems p obtain ai where ai: "map_of cat m = Some ai"
    by (cases "map_of cat m") auto
  from Cons.prems p ai obtain c w1 where
    u: "update_existing_model_in_memory w p m ai = Inr (c, w1)"
    by (cases "update_existing_model_in_memory w p m ai") auto
  with Cons.prems p ai have "update_models w1 cat ms (b \<or> c) = Inr (b', w')" by simp
  from Cons.IH [OF this] update_existing_res [OF u] show ?case
    by (blast intro: writer_kept_trans)
qed

lemma create_models_res:
  "create_models w cat ms b = Inr (b', w') \<Longrightarrow> writer_kept w w'"
proof (induction ms arbitrary: w b)
  case Nil
  then show ?case by (simp add: writer_kept_refl)
next
  case (Cons m ms)
  from Cons.prems obtain ai where ai: "map_of cat m = Some ai"
    by (cases "map_of cat m") auto
  from Cons.prems ai obtain c w1 where
    u: "create_new_model_stub_in_memory w m ai = Inr (c, w1)"
    by (cases "create_new_model_stub_in_memory w m ai") auto
  with Cons.prems ai have "create_models w1 cat ms (b \<or> c) = Inr (b', w')" by simp
  from Cons.IH [OF this] create_stub_res [OF u] show ?case
    by (blast intro: writer_kept_trans)
qed

lemma reconcile_res:
  assumes "reconcile fs w cat = Inr (b, w')"
  shows "\<exists>w1. load_and_map_existing_yamls fs w = Inr w1 \<and> writer_kept w1 w'"
proof -
  from assms obtain w1 where l: "load_and_map_existing_yamls fs w = Inr w1"
    by (cases "load_and_map_existing_yamls fs w") (simp_all add: reconcile_def)
  let ?ms = "remdups (map fst cat)"
  let ?up = "filter (\<lambda>m. m \<in> set (map fst (model_to_file_map w1))) ?ms"
  let ?cr = "filter (\<lambda>m. m \<notin> set (map fst (model_to_file_map w1))) ?ms"
  from assms l obtain b1 w2 where u: "update_models w1 cat ?up False = Inr (b1, w2)"
    by (cases "update_models w1 cat ?up False") (auto simp: reconcile_def Let_def)
  with assms l have c: "create_models w2 cat ?cr b1 = Inr (b, w')"
    by (simp add: reconcile_def Let_def)
  from update_models_res [OF u] create_models_res [OF c] have "writer_kept w1 w'"
    by (rule writer_kept_trans)
  with l show ?thesis by blast
qed

subsection \<open>Reading the kept relations\<close>

lemma col_kept_YMap:
  assumes "col_kept (YMap cm) c'"
  shows "\<exists>cm'. c' = YMap cm' \<and> (\<forall>k. get_truthy cm k \<longrightarrow> map_of cm' k = map_of cm k)"
proof (cases c')
  case (YMap cm')
  with assms show ?thesis unfolding YMap col_kept_iff by blast
qed (use assms in simp_all)

lemma node_kept_YMap:
  assumes "node_kept (YMap nm) n'"
  shows "\<exists>nm'. n' = YMap nm'
     \<and> AList.delete ''description'' (AList.delete ''columns'' nm')
           = AList.delete ''description'' (AList.delete ''columns'' nm)
     \<and> (get_truthy nm ''description'' \<longrightarrow> map_of nm' ''description'' = map_of nm ''description'')
     \<and> cols_kept (map_of nm ''columns'') (map_of nm' ''columns'')"
proof (cases n')
  case (YMap nm')
  with assms show ?thesis by simp
qed (use assms in simp_all)

lemma doc_kept_YMap:
  assumes "doc_kept (YMap dm) d'"
  shows "\<exists>dm'. d' = YMap dm' \<and> AList.delete ''models'' dm' = AList.delete ''models'' dm
     \<and> models_kept (map_of dm ''models'') (map_of dm' ''models'')"
proof (cases d')
  case (YMap dm')
  with assms show ?thesis by simp
qed (use assms in simp_all)

lemma delete_eq_map_of:
  assumes "AList.delete k m' = AList.delete k m" and "j \<noteq> k"
  shows "map_of m' j = map_of m j"
proof -
  have "map_of (AList.delete k m') j = map_of (AList.delete k m) j" using assms(1) by simp
  with assms(2) show ?thesis by (simp add: delete_conv')
qed

lemma kept_node:
  assumes "doc_kept (YMap dm) d'" and "map_of dm ''models'' = Some (YSeq ns)"
    and "i < length ns" and "ns ! i = YMap nm"
  shows "\<exists>dm' ns' nm'. d' = YMap dm' \<and> map_of dm' ''models'' = Some (YSeq ns')
     \<and> i < length ns' \<and> ns' ! i = YMap nm' \<and> node_kept (YMap nm) (YMap nm')"
proof -
  from doc_kept_YMap [OF assms(1)] obtain dm' where d': "d' = YMap dm'"
    and mk: "models_kept (map_of dm ''models'') (map_of dm' ''models'')" by blast
  from mk assms(2) have "map_of dm' ''models'' = Some (YSeq ns)
      \<or> (\<exists>ns'. map_of dm' ''models'' = Some (YSeq ns')
          \<and> length ns \<le> length ns' \<and> (\<forall>i<length ns. node_kept (ns ! i) (ns' ! i)))"
    unfolding models_kept_iff by auto
  then obtain ns' where ns': "map_of dm' ''models'' = Some (YSeq ns')"
    and le: "length ns \<le> length ns'" and nk: "\<forall>i<length ns. node_kept (ns ! i) (ns' ! i)"
    by (auto simp: node_kept_refl)
  from nk assms(3,4) have "node_kept (YMap nm) (ns' ! i)" by auto
  from node_kept_YMap [OF this] obtain nm' where "ns' ! i = YMap nm'" by blast
  with \<open>node_kept (YMap nm) (ns' ! i)\<close> d' ns' le assms(3) show ?thesis by auto
qed

lemma kept_column:
  assumes "node_kept (YMap nm) (YMap nm')" and "map_of nm ''columns'' = Some (YSeq cs)"
    and "j < length cs" and "cs ! j = YMap cm"
  shows "\<exists>cs' cm'. map_of nm' ''columns'' = Some (YSeq cs') \<and> length cs' = length cs
     \<and> cs' ! j = YMap cm' \<and> (\<forall>k. get_truthy cm k \<longrightarrow> map_of cm' k = map_of cm k)"
proof -
  from assms(1) have "cols_kept (map_of nm ''columns'') (map_of nm' ''columns'')" by simp
  with assms(2) have "map_of nm' ''columns'' = Some (YSeq cs)
     \<or> (\<exists>cs'. map_of nm' ''columns'' = Some (YSeq cs') \<and> list_all2 col_kept cs cs')"
    unfolding cols_kept_iff by auto
  then obtain cs' where cs': "map_of nm' ''columns'' = Some (YSeq cs')"
    and l: "list_all2 col_kept cs cs'"
    by (auto simp: list_all2_refl col_kept_refl)
  from l assms(3) have len: "length cs' = length cs" and "col_kept (cs ! j) (cs' ! j)"
    by (auto simp: list_all2_conv_all_nth)
  with assms(4) have "col_kept (YMap cm) (cs' ! j)" by simp
  from col_kept_YMap [OF this] cs' len show ?thesis by blast
qed

lemma write_reconcile:
  assumes "snd (writer_write fs w cat) = Inr (b, w')"
  shows "reconcile fs w cat = Inr (b, w')"
  using assms
  by (auto simp: writer_write_def split: sum.splits if_splits prod.splits option.splits)

text \<open>What holds of every document between loading and the end of \<open>write\<close>.\<close>

lemma write_kept:
  assumes "snd (writer_write fs w cat) = Inr (b, w')"
  shows "\<exists>w1. load_and_map_existing_yamls fs w = Inr w1 \<and> writer_kept w1 w'"
  using reconcile_res [OF write_reconcile [OF assms]] .

section \<open>What reconciliation leaves alone\<close>

text \<open>
  The documents the writer holds. Take any node of the \<open>models\<close> list of a loaded
  document. After \<open>write\<close>, in any mode, the document held under the same path still has
  a node at the same position; if the description of the node was non-empty it has the
  same description; and every column of the node is still at its position, with every
  field that had a non-empty value holding the same value.
\<close>

lemma loaded_values_kept:
  assumes "load_and_map_existing_yamls fs w = Inr w1"
    and "snd (writer_write fs w cat) = Inr (b, w')"
    and "map_of (yaml_files w1) p = Some (YMap dm)"
    and "map_of dm ''models'' = Some (YSeq ns)"
    and "i < length ns" and "ns ! i = YMap nm"
  shows "\<exists>dm' ns' nm'.
      map_of (yaml_files w') p = Some (YMap dm') \<and> map_of dm' ''models'' = Some (YSeq ns')
    \<and> i < length ns' \<and> ns' ! i = YMap nm'
    \<and> (get_truthy nm ''description'' \<longrightarrow> map_of nm' ''description'' = map_of nm ''description'')
    \<and> (\<forall>cs j cm. map_of nm ''columns'' = Some (YSeq cs) \<and> j < length cs \<and> cs ! j = YMap cm \<longrightarrow>
          (\<exists>cs' cm'. map_of nm' ''columns'' = Some (YSeq cs') \<and> length cs' = length cs
             \<and> cs' ! j = YMap cm'
             \<and> (\<forall>k. get_truthy cm k \<longrightarrow> map_of cm' k = map_of cm k)))"
proof -
  from write_kept [OF assms(2)] assms(1) have "writer_kept w1 w'" by auto
  with assms(3) obtain d' where d': "map_of (yaml_files w') p = Some d'"
    and dk: "doc_kept (YMap dm) d'"
    unfolding writer_kept_def by blast
  from kept_node [OF dk assms(4-6)] obtain dm' ns' nm' where
    k: "d' = YMap dm'" "map_of dm' ''models'' = Some (YSeq ns')" "i < length ns'"
       "ns' ! i = YMap nm'" and nk: "node_kept (YMap nm) (YMap nm')"
    by blast
  from nk have desc:
    "get_truthy nm ''description'' \<longrightarrow> map_of nm' ''description'' = map_of nm ''description''"
    by simp
  have cols: "\<forall>cs j cm. map_of nm ''columns'' = Some (YSeq cs) \<and> j < length cs \<and> cs ! j = YMap cm \<longrightarrow>
          (\<exists>cs' cm'. map_of nm' ''columns'' = Some (YSeq cs') \<and> length cs' = length cs
             \<and> cs' ! j = YMap cm'
             \<and> (\<forall>k. get_truthy cm k \<longrightarrow> map_of cm' k = map_of cm k))"
    using kept_column [OF nk] by blast
  from d' k desc cols show ?thesis by blast
qed

lemma find_node_None:
  "\<forall>n\<in>set ns. \<exists>nm. n = YMap nm \<and> map_of nm ''name'' \<noteq> Some (YStr m) \<Longrightarrow>
     find_node ns m = Inr None"
  by (induction ns) auto

text \<open>
  The update of a known model looks for its node under \<open>models\<close> only: when no node of
  that list has the name, as for a name that the index has from another list, the call
  changes nothing and returns false. And whatever the catalog and the mode, every key
  of a document the writer holds other than \<open>models\<close> has after \<open>write\<close> the value it
  had after loading.
\<close>

lemma other_lists_kept:
  "(map_of (yaml_files w) p = Some (YMap dm)
      \<and> (case map_of dm ''models'' of
            None \<Rightarrow> True
          | Some v \<Rightarrow> \<exists>ns. v = YSeq ns
              \<and> (\<forall>n\<in>set ns. \<exists>nm. n = YMap nm \<and> map_of nm ''name'' \<noteq> Some (YStr m)))
      \<longrightarrow> update_existing_model_in_memory w p m ai = Inr (False, w))
   \<and> (load_and_map_existing_yamls fs w0 = Inr w1
      \<and> snd (writer_write fs w0 cat) = Inr (b, w')
      \<and> map_of (yaml_files w1) q = Some (YMap dm1) \<and> k \<noteq> ''models''
      \<longrightarrow> (\<exists>dm'. map_of (yaml_files w') q = Some (YMap dm') \<and> map_of dm' k = map_of dm1 k))"
proof (intro conjI impI)
  assume a: "map_of (yaml_files w) p = Some (YMap dm)
      \<and> (case map_of dm ''models'' of
            None \<Rightarrow> True
          | Some v \<Rightarrow> \<exists>ns. v = YSeq ns
              \<and> (\<forall>n\<in>set ns. \<exists>nm. n = YMap nm \<and> map_of nm ''name'' \<noteq> Some (YStr m)))"
  show "update_existing_model_in_memory w p m ai = Inr (False, w)"
  proof (cases "map_of dm ''models''")
    case None
    with a show ?thesis by (simp add: update_existing_model_in_memory_def)
  next
    case (Some v)
    with a obtain ns where v: "v = YSeq ns"
      and n: "\<forall>n\<in>set ns. \<exists>nm. n = YMap nm \<and> map_of nm ''name'' \<noteq> Some (YStr m)"
      by auto
    from find_node_None [OF n] a Some v show ?thesis
      by (simp add: update_existing_model_in_memory_def)
  qed
next
  assume a: "load_and_map_existing_yamls fs w0 = Inr w1
      \<and> snd (writer_write fs w0 cat) = Inr (b, w')
      \<and> map_of (yaml_files w1) q = Some (YMap dm1) \<and> k \<noteq> ''models''"
  then have s: "snd (writer_write fs w0 cat) = Inr (b, w')" by blast
  from write_kept [OF s] a have "writer_kept w1 w'" by auto
  with a obtain d' where d': "map_of (yaml_files w') q = Some d'"
    and dk: "doc_kept (YMap dm1) d'"
    unfolding writer_kept_def by blast
  from doc_kept_YMap [OF dk] obtain dm' where e: "d' = YMap dm'"
    and eq: "AList.delete ''models'' dm' = AList.delete ''models'' dm1" by blast
  from a have kn: "k \<noteq> ''models''" by blast
  from delete_eq_map_of [OF eq kn] have "map_of dm' k = map_of dm1 k" .
  with d' e
  show "\<exists>dm'. map_of (yaml_files w') q = Some (YMap dm') \<and> map_of dm' k = map_of dm1 k"
    by blast
qed

section \<open>A stub file that takes the place of a documentation file\<close>

text \<open>
  C2 (a description that is not empty is never overwritten) fails on the code once
  \<open>write\<close> has persisted. The project is run from its own directory (\<open>.\<close>), its file
  \<open>models/schema.yml\<close> gives the model \<open>customers\<close> the description \<open>Hand written\<close>,
  and the catalog has the unknown model \<open>orders\<close> with the source file
  \<open>models/orders.sql\<close>. Discovery loads the file under the path \<open>./models/schema.yml\<close>,
  the stub looks for \<open>models/schema.yml\<close>, finds no document under that spelling and
  starts a new one; the new document is written to the same file. After \<open>write\<close> in
  update mode the file holds the stub of \<open>orders\<close> alone: the node \<open>customers\<close> and its
  description are gone.
\<close>

theorem stub_file_loses_description:
  "read_yaml customers_project ''./models/schema.yml'' = Inr (YMap customers_doc)
   \<and> outcome (run ''.'' Update [] customers_project orders_catalog)
       = Inr (True, [''models/schema.yml''])
   \<and> read_yaml (fst (run ''.'' Update [] customers_project orders_catalog))
         ''./models/schema.yml''
       = Inr (YMap [(''version'', YInt 2), (''models'', YSeq [orders_stub])])"
  by code_simp

text \<open>
  C10 (a node under \<open>sources\<close>, \<open>seeds\<close> or \<open>snapshots\<close> is left entirely unchanged by
  \<open>write\<close>) fails on the code once \<open>write\<close> has persisted, by the same defect. The file
  \<open>models/schema.yml\<close> documents \<open>orders\<close> as a source; the catalog has \<open>orders\<close>,
  which the index maps to that file, and the unknown model \<open>users\<close> with the source file
  \<open>models/users.sql\<close>. The update of \<open>orders\<close> finds no node under \<open>models\<close> and
  returns false, as the claim says; the stub of \<open>users\<close> goes into a new document that
  is written over the file, and after \<open>write\<close> in update mode the file holds that stub
  alone: the node of the source \<open>orders\<close> is gone.
\<close>

theorem stub_file_loses_source_node:
  "load_and_map_existing_yamls source_project (writer_init ''.'' Update []) = Inr source_loaded
   \<and> update_existing_model_in_memory source_loaded ''./models/schema.yml'' ''orders''
        (snd (hd orders_users_catalog)) = Inr (False, source_loaded)
   \<and> outcome (run ''.'' Update [] source_project orders_users_catalog)
       = Inr (True, [''models/schema.yml''])
   \<and> read_yaml (fst (run ''.'' Update [] source_project orders_users_catalog))
         ''./models/schema.yml''
       = Inr (YMap [(''version'', YInt 2), (''models'', YSeq [users_stub])])"
  by code_simp

section \<open>What reaches the disk\<close>

lemma file_at_simps:
  "file_at (File x) [] = Some x"
  "file_at (File x) (c # cs) = None"
  "file_at (Dir es) [] = None"
  "file_at (Dir es) (c # cs) = (case map_of es c of None \<Rightarrow> None | Some n \<Rightarrow> file_at n cs)"
  by (simp_all add: file_at_def split: option.splits)

text \<open>Writing one file leaves the content found at every other path as it was.\<close>

lemma fs_write_other:
  "fs_write fs ds v = Some fs' \<Longrightarrow> cs \<noteq> ds \<Longrightarrow> file_at fs' cs = file_at fs cs"
proof (induction fs ds v arbitrary: fs' cs rule: fs_write.induct)
  case (1 n v)
  then show ?case by simp
next
  case (2 n c v)
  from "2.prems"(1) obtain es where n: "n = Dir es"
    and nd: "\<forall>es'. map_of es c \<noteq> Some (Dir es')"
    and fs': "fs' = Dir (AList.update c (File v) es)"
    by (auto split: fsnode.splits option.splits)
  show ?case
  proof (cases cs)
    case Nil
    then show ?thesis by (simp add: n fs' file_at_simps)
  next
    case (Cons c2 cs2)
    show ?thesis
    proof (cases "c2 = c")
      case False
      then show ?thesis by (simp add: n fs' Cons file_at_simps update_conv')
    next
      case True
      with "2.prems"(2) Cons obtain x xs where cs2: "cs2 = x # xs" by (cases cs2) auto
      have "file_at (Dir es) (c # x # xs) = None"
      proof (cases "map_of es c")
        case None
        then show ?thesis by (simp add: file_at_simps)
      next
        case (Some n')
        with nd obtain y where "n' = File y" by (cases n') auto
        with Some show ?thesis by (simp add: file_at_simps)
      qed
      then show ?thesis by (simp add: n fs' Cons True cs2 file_at_simps update_conv')
    qed
  qed
next
  case (3 n c v va vb)
  from "3.prems"(1) obtain es n' n'' where n: "n = Dir es"
    and m: "map_of es c = Some n'"
    and w: "fs_write n' (v # va) vb = Some n''"
    and fs': "fs' = Dir (AList.update c n'' es)"
    by (auto split: fsnode.splits option.splits)
  show ?case
  proof (cases cs)
    case Nil
    then show ?thesis by (simp add: n fs' file_at_simps)
  next
    case (Cons c2 cs2)
    show ?thesis
    proof (cases "c2 = c")
      case False
      then show ?thesis by (simp add: n fs' Cons file_at_simps update_conv')
    next
      case True
      with "3.prems"(2) Cons have "cs2 \<noteq> v # va" by simp
      from "3.IH" [OF n m w this] have "file_at n'' cs2 = file_at n' cs2" .
      then show ?thesis by (simp add: n fs' Cons True m file_at_simps update_conv')
    qed
  qed
qed

lemma write_modified_other:
  "\<forall>p \<in> set ps. split_path p \<noteq> cs \<Longrightarrow>
     file_at (fst (write_modified_files_to_disk fs docs ps)) cs = file_at fs cs"
proof (induction ps arbitrary: fs)
  case Nil
  then show ?case by simp
next
  case (Cons p ps)
  let ?v = "Parsed (case map_of docs p of None \<Rightarrow> YNull | Some data \<Rightarrow> data)"
  show ?case
  proof (cases "fs_write fs (split_path p) ?v")
    case None
    then show ?thesis by simp
  next
    case (Some fs')
    from Cons.prems have "cs \<noteq> split_path p" by auto
    from fs_write_other [OF Some this] have e: "file_at fs' cs = file_at fs cs" .
    show ?thesis
    proof (cases "map_of docs p")
      case None
      with Some e show ?thesis by simp
    next
      case (Some data)
      from Cons.prems have "\<forall>p \<in> set ps. split_path p \<noteq> cs" by simp
      from Cons.IH [OF this, of fs'] e Some \<open>fs_write fs (split_path p) ?v = Some fs'\<close>
      show ?thesis by simp
    qed
  qed
qed

lemma load_files_config:
  "load_files fs ps w = Inr w1 \<Longrightarrow>
     mode w1 = mode w \<and> dbt_project_dir w1 = dbt_project_dir w
     \<and> files_to_write w1 = files_to_write w \<and> stdin w1 = stdin w"
proof (induction ps arbitrary: w)
  case Nil
  then show ?case by simp
next
  case (Cons p ps)
  from Cons.prems obtain data where r: "read_yaml fs p = Inr data"
    by (cases "read_yaml fs p") auto
  show ?case
  proof (cases "truthy data")
    case False
    with Cons.prems r have "load_files fs ps w = Inr w1" by simp
    from Cons.IH [OF this] show ?thesis .
  next
    case True
    with Cons.prems r obtain idx where
      "map_document p data (model_to_file_map w) = Inr idx"
      by (cases "map_document p data (model_to_file_map w)") auto
    with Cons.prems r True
    have "load_files fs ps (w\<lparr>yaml_files := AList.update p data (yaml_files w),
                              model_to_file_map := idx\<rparr>) = Inr w1"
      by simp
    from Cons.IH [OF this] show ?thesis by simp
  qed
qed

lemma reconcile_mode:
  assumes "reconcile fs w cat = Inr (b, w')"
  shows "mode w' = mode w"
proof -
  from reconcile_res [OF assms] obtain w1 where
    l: "load_and_map_existing_yamls fs w = Inr w1" and k: "writer_kept w1 w'" by blast
  from l have "mode w1 = mode w"
    using load_files_config [of fs _ w w1] by (simp add: load_and_map_existing_yamls_def)
  with k show ?thesis by (simp add: writer_kept_def)
qed

text \<open>In check mode every unknown model counts as outdated and nothing else happens.\<close>

lemma create_models_check:
  "mode w = Check \<Longrightarrow> set ms \<subseteq> fst ` set cat \<Longrightarrow>
     create_models w cat ms b = Inr (b \<or> ms \<noteq> [], w)"
proof (induction ms arbitrary: b)
  case Nil
  then show ?case by simp
next
  case (Cons m ms)
  from Cons.prems(2) obtain ai where "map_of cat m = Some ai"
    by (cases "map_of cat m") (auto simp: map_of_eq_None_iff)
  with Cons show ?case by (simp add: create_new_model_stub_in_memory_def)
qed

text \<open>
  C3 (what reaches the disk). In check mode and in drift mode \<open>write\<close> leaves the file
  system exactly as it was, whatever the catalog and the files. In every mode, when
  reconciliation fails the file system is as it was, and when it succeeds a path that
  is not the path of a dirty file holds after \<open>write\<close> what it held before (also when
  persisting stops with an error half way). In check mode on a project where no
  documentation file is found, with a catalog that has at least one model, nothing is
  created and \<open>write\<close> returns true.
\<close>

theorem persistence_frame:
  "(mode w = Check \<or> mode w = Drift \<longrightarrow> fst (writer_write fs w cat) = fs)
   \<and> ((\<exists>e. reconcile fs w cat = Inl e) \<longrightarrow> fst (writer_write fs w cat) = fs)
   \<and> (reconcile fs w cat = Inr (b, w') \<and> (\<forall>p \<in> set (files_to_write w'). split_path p \<noteq> cs)
      \<longrightarrow> file_at (fst (writer_write fs w cat)) cs = file_at fs cs)
   \<and> (find_schema_files fs dir = [] \<and> cat \<noteq> []
      \<longrightarrow> run dir Check answers fs cat = (fs, Inr (True, writer_init dir Check answers)))"
proof -
  have one: "fst (writer_write fs w cat) = fs" if m: "mode w = Check \<or> mode w = Drift"
  proof (cases "reconcile fs w cat")
    case (Inl e)
    then show ?thesis by (simp add: writer_write_def)
  next
    case (Inr r)
    obtain b1 w1 where r: "r = (b1, w1)" by (cases r)
    from reconcile_mode [of fs w cat b1 w1] Inr r have "mode w1 = mode w" by simp
    with m Inr r show ?thesis by (auto simp: writer_write_def)
  qed
  have two: "fst (writer_write fs w cat) = fs" if "\<exists>e. reconcile fs w cat = Inl e"
    using that by (auto simp: writer_write_def)
  have three: "file_at (fst (writer_write fs w cat)) cs = file_at fs cs"
    if a: "reconcile fs w cat = Inr (b, w') \<and> (\<forall>p \<in> set (files_to_write w'). split_path p \<noteq> cs)"
  proof -
    from a have n: "\<forall>p \<in> set (files_to_write w'). split_path p \<noteq> cs" by blast
    have "fst (writer_write fs w cat) = fs
        \<or> fst (writer_write fs w cat)
            = fst (write_modified_files_to_disk fs (yaml_files w') (files_to_write w'))"
      using a by (auto simp: writer_write_def split: prod.splits option.splits)
    with write_modified_other [OF n, of fs "yaml_files w'"] show ?thesis by auto
  qed
  have four: "run dir Check answers fs cat = (fs, Inr (True, writer_init dir Check answers))"
    if a: "find_schema_files fs dir = [] \<and> cat \<noteq> []"
  proof -
    let ?w = "writer_init dir Check answers"
    have m: "mode ?w = Check" by (simp add: writer_init_def)
    from a have l: "load_and_map_existing_yamls fs ?w = Inr ?w"
      by (simp add: load_and_map_existing_yamls_def writer_init_def)
    have idx: "model_to_file_map ?w = []" by (simp add: writer_init_def)
    have sub: "set (remdups (map fst cat)) \<subseteq> fst ` set cat" by simp
    from a have ne: "remdups (map fst cat) \<noteq> []" by simp
    from create_models_check [OF m sub, of False] ne
    have c: "create_models ?w cat (remdups (map fst cat)) False = Inr (True, ?w)" by simp
    from l idx c have "reconcile fs ?w cat = Inr (True, ?w)"
      by (simp add: reconcile_def Let_def)
    with m show ?thesis by (simp add: run_def writer_write_def)
  qed
  from one two three four show ?thesis by blast
qed

theorem persistence_frame_witness:
  "mode (writer_init ''.'' Drift []) = Drift
   \<and> fst (writer_write empty_project (writer_init ''.'' Drift []) orders_catalog) = empty_project
   \<and> (\<exists>e. reconcile broken_project (writer_init ''.'' Update []) orders_catalog = Inl e)
   \<and> fst (writer_write broken_project (writer_init ''.'' Update []) orders_catalog) = broken_project
   \<and> reconcile empty_project (writer_init ''.'' Update []) orders_catalog
        = Inr (True, stubbed_writer)
   \<and> files_to_write stubbed_writer = [''models/schema.yml'']
   \<and> split_path ''models/schema.yml'' \<noteq> [''models'', ''orders.sql'']
   \<and> file_at (fst (writer_write empty_project (writer_init ''.'' Update []) orders_catalog))
        [''models'', ''orders.sql'']
      = file_at empty_project [''models'', ''orders.sql'']
   \<and> find_schema_files empty_project ''.'' = [] \<and> orders_catalog \<noteq> []
   \<and> run ''.'' Check [] empty_project orders_catalog
        = (empty_project, Inr (True, writer_init ''.'' Check []))"
proof -
  have h1: "mode (writer_init ''.'' Drift []) = Drift" by (simp add: writer_init_def)
  have h2: "\<exists>e. reconcile broken_project (writer_init ''.'' Update []) orders_catalog = Inl e"
  proof -
    have "reconcile broken_project (writer_init ''.'' Update []) orders_catalog
        = Inl (WriterError ''Failed to parse YAML file: ./models/schema.yml'')"
      by code_simp
    then show ?thesis by blast
  qed
  have h3: "reconcile empty_project (writer_init ''.'' Update []) orders_catalog
        = Inr (True, stubbed_writer)" by code_simp
  have h4a: "files_to_write stubbed_writer = [''models/schema.yml'']" by code_simp
  have h4b: "split_path ''models/schema.yml'' \<noteq> [''models'', ''orders.sql'']" by code_simp
  from h4a h4b
  have h4: "\<forall>p \<in> set (files_to_write stubbed_writer). split_path p \<noteq> [''models'', ''orders.sql'']"
    by simp
  have h5: "find_schema_files empty_project ''.'' = []" by code_simp
  have h6: "orders_catalog \<noteq> []" by (simp add: orders_catalog_def)
  from persistence_frame [of "writer_init ''.'' Drift []" empty_project orders_catalog] h1
  have c1: "fst (writer_write empty_project (writer_init ''.'' Drift []) orders_catalog)
      = empty_project" by blast
  from persistence_frame [of "writer_init ''.'' Update []" broken_project orders_catalog] h2
  have c2: "fst (writer_write broken_project (writer_init ''.'' Update []) orders_catalog)
      = broken_project" by blast
  from persistence_frame [of "writer_init ''.'' Update []" empty_project orders_catalog
      True stubbed_writer "[''models'', ''orders.sql'']"] h3 h4
  have c3: "file_at (fst (writer_write empty_project (writer_init ''.'' Update []) orders_catalog))
        [''models'', ''orders.sql'']
      = file_at empty_project [''models'', ''orders.sql'']" by blast
  from persistence_frame [of w empty_project orders_catalog b w' cs "''.''" "[]"] h5 h6
  have c4: "run ''.'' Check [] empty_project orders_catalog
        = (empty_project, Inr (True, writer_init ''.'' Check []))" by blast
  from h1 c1 h2 c2 h3 h4a h4b c3 h5 h6 c4 show ?thesis by blast
qed

section \<open>The dirty set\<close>








subsection \<open>Every assignment of a non-empty value raises the count\<close>











subsection \<open>Every step that marks a file raises its count\<close>
















section \<open>Errors that stop the run and problems that do not\<close>








section \<open>Where the stub of an unknown model goes\<close>






section \<open>Running the writer twice\<close>

text \<open>
  C1 (idempotence of reconciliation in update mode) fails on the code. The project
  documents the model \<open>orders\<close> and lists its column \<open>id\<close> without a description; the
  catalog offers the empty string as the description of that column. The column loop
  tests only that the field of the file is empty, not that the offered value is
  non-empty (the model-level test does both), so every run assigns the empty value
  again: the first run and the second run over the files the first one left, with the
  same catalog, both mark \<open>./models/schema.yml\<close> dirty, write it and return true.
\<close>

theorem second_run_marks_dirty_again:
  "outcome (run ''.'' Update [] documented_project blank_catalog)
     = Inr (True, [''./models/schema.yml''])
   \<and> outcome (run ''.'' Update []
         (fst (run ''.'' Update [] documented_project blank_catalog)) blank_catalog)
     = Inr (True, [''./models/schema.yml''])"
  by code_simp

section \<open>Discovery\<close>

text \<open>
  C9 (discovery lists every \<open>.yml\<close> and \<open>.yaml\<close> file under the three roots and leaves
  out only \<open>dbt_project.yml\<close>) fails on the code. The test is that the file name does
  not contain \<open>dbt_project\<close>, so the documentation file
  \<open>models/dbt_project_docs.yml\<close> is left out as well: of the two documentation files
  under \<open>models\<close> only \<open>schema.yml\<close> is listed.
\<close>

theorem discovery_drops_name_containing_dbt_project:
  "fs_lookup docs_project (split_path ''./models/dbt_project_docs.yml'') = Some (File (Parsed YNull))
   \<and> find_schema_files docs_project ''.'' = [''./models/schema.yml'']"
  by code_simp

end
